theory Spec2Isabelle
  imports Main
begin

section \<open>Data model (the tables of the initial schema migration)\<close>

text \<open>
  Rows of the tables the booking routes read and write. Instants (TIMESTAMP columns, JavaScript
  \<^verbatim>\<open>Date\<close> values) are milliseconds since the epoch on one time scale (UTC); TIME columns
  are seconds since midnight; DATE columns are days since the epoch. Identifiers are the
  UUID strings. Columns that no route under src/routes/bookings.js or src/routes/events.js
  writes (\<^verbatim>\<open>notes\<close>, \<^verbatim>\<open>reminder_sent_at\<close>, ...) are left out.
\<close>

type_synonym uuid = string
type_synonym instant = int
type_synonym time_of_day = int
type_synonym date = int

record user =
  u_id :: uuid
  u_email :: string

record event_type =
  et_id :: uuid
  et_user_id :: uuid
  et_name :: string
  et_duration_minutes :: int
  et_is_active :: bool
  et_deleted_at :: "instant option"

record availability_slot =
  s_id :: uuid
  s_event_type_id :: uuid
  s_day_of_week :: string
  s_start_time :: time_of_day
  s_end_time :: time_of_day
  s_is_active :: bool
  s_updated_at :: instant

record booking =
  b_id :: uuid
  b_event_type_id :: uuid
  b_user_id :: uuid
  b_guest_name :: string
  b_guest_email :: string
  b_guest_phone :: "string option"
  b_guest_timezone :: "string option"
  b_scheduled_at :: instant
  b_end_time :: instant
  b_duration_minutes :: int
  b_description :: "string option"
  b_google_meet_link :: "string option"
  b_status :: string
  b_custom_fields :: string
  b_google_calendar_event_id :: "string option"
  b_cancelled_at :: "instant option"
  b_cancellation_reason :: "string option"
  b_created_at :: instant
  b_updated_at :: instant
  b_deleted_at :: "instant option"

record analytics_row =
  a_user_id :: uuid
  a_event_type_id :: uuid
  a_action_type :: string
  a_booking_count :: int
  a_cancellation_count :: int
  a_date :: date
  a_updated_at :: instant

record db =
  users :: "user list"
  event_types :: "event_type list"
  availability_slots :: "availability_slot list"
  bookings :: "booking list"
  analytics :: "analytics_row list"

text \<open>The HTTP error classes of the routes: 400, 404, 409 and 500. \<open>StoreError\<close> stands for
  every answer 500: an exception, of a query or of the handler's own code, that reaches
  \<^verbatim>\<open>next(error)\<close>.\<close>

datatype error = ValidationError | NotFoundError | ConflictError | StoreError

section \<open>Projections of an instant (JavaScript Date, server clock in UTC)\<close>

definition minutes_ms :: "int \<Rightarrow> int" where
  "minutes_ms m = m * 60000"

text \<open>\<^verbatim>\<open>d.setMinutes(d.getMinutes() + m)\<close>\<close>

definition addMinutes :: "instant \<Rightarrow> int \<Rightarrow> instant" where
  "addMinutes t m = t + minutes_ms m"

text \<open>\<^verbatim>\<open>d.getDay()\<close>: 0 is Sunday; the epoch day was a Thursday.\<close>

definition getDay :: "instant \<Rightarrow> int" where
  "getDay t = (t div 86400000 + 4) mod 7"

definition dayNames :: "string list" where
  "dayNames = [''Sunday'', ''Monday'', ''Tuesday'', ''Wednesday'', ''Thursday'', ''Friday'', ''Saturday'']"

definition dayOfWeek :: "instant \<Rightarrow> string" where
  "dayOfWeek t = dayNames ! nat (getDay t)"

text \<open>\<^verbatim>\<open>d.toTimeString().slice(0, 5)\<close>, the HH:MM text, read as a TIME value.\<close>

definition toTimeString_HHMM :: "instant \<Rightarrow> time_of_day" where
  "toTimeString_HHMM t = 60 * ((t div 60000) mod 1440)"

text \<open>\<^verbatim>\<open>new Date().toISOString().split('T')[0]\<close>\<close>

definition today :: "instant \<Rightarrow> date" where
  "today now = now div 86400000"

section \<open>Availability slots (bookings.js 98-125, 359-375, 479-508; events.js 216-310)\<close>

text \<open>The UPDATE of bookings.js 108-121 and 500-505: every slot of the event type and day
  with \<^verbatim>\<open>start_time < bookingEndTime AND end_time > bookingStartTime\<close> is deactivated.\<close>

definition consumeSlot ::
  "uuid \<Rightarrow> string \<Rightarrow> time_of_day \<Rightarrow> time_of_day \<Rightarrow> instant \<Rightarrow> availability_slot list \<Rightarrow> availability_slot list" where
  "consumeSlot event_type_id day bookingStartTime bookingEndTime now slots =
     map (\<lambda>s. if s_event_type_id s = event_type_id \<and> s_day_of_week s = day
                   \<and> s_start_time s < bookingEndTime \<and> s_end_time s > bookingStartTime
                then s\<lparr>s_is_active := False, s_updated_at := now\<rparr> else s) slots"

text \<open>The UPDATE of bookings.js 365-371 and 485-489: slots of the event type and day with
  \<^verbatim>\<open>start_time = bookingStartTime\<close> are reactivated.\<close>

definition releaseSlot ::
  "uuid \<Rightarrow> string \<Rightarrow> time_of_day \<Rightarrow> instant \<Rightarrow> availability_slot list \<Rightarrow> availability_slot list" where
  "releaseSlot event_type_id day bookingStartTime now slots =
     map (\<lambda>s. if s_event_type_id s = event_type_id \<and> s_day_of_week s = day
                   \<and> s_start_time s = bookingStartTime
                then s\<lparr>s_is_active := True, s_updated_at := now\<rparr> else s) slots"

record slot_request =
  sr_day_of_week :: string
  sr_start_time :: time_of_day
  sr_end_time :: time_of_day

text \<open>POST /:eventId/availability (events.js 216-254). \<open>validation\<close> is the outcome of
  \<^verbatim>\<open>validate(availabilitySlotSchema, req.body)\<close>, \<open>None\<close> when the body is invalid, with
  the two HH:MM texts read as TIME values; \<open>slotId\<close> is the \<^verbatim>\<open>uuidv4()\<close> drawn; the primary
  key rejects an id already present.\<close>

definition addAvailabilitySlot ::
  "uuid \<Rightarrow> uuid \<Rightarrow> slot_request option \<Rightarrow> uuid \<Rightarrow> instant \<Rightarrow> db \<Rightarrow> (error + availability_slot) \<times> db" where
  "addAvailabilitySlot userId eventId validation slotId now d =
     (case validation of
        None \<Rightarrow> (Inl ValidationError, d)
      | Some r \<Rightarrow>
          if \<not> list_ex (\<lambda>et. et_id et = eventId \<and> et_user_id et = userId) (event_types d)
          then (Inl NotFoundError, d)
          else if list_ex (\<lambda>s. s_id s = slotId) (availability_slots d)
          then (Inl StoreError, d)
          else
            let slot = \<lparr>s_id = slotId, s_event_type_id = eventId,
                        s_day_of_week = sr_day_of_week r, s_start_time = sr_start_time r,
                        s_end_time = sr_end_time r, s_is_active = True, s_updated_at = now\<rparr>
            in (Inr slot, d\<lparr>availability_slots := availability_slots d @ [slot]\<rparr>))"

text \<open>GET /:eventId/availability (events.js 256-289): the active slots of the event type,
  Monday first, then by start time.\<close>

definition dayRank :: "string \<Rightarrow> nat" where
  "dayRank day =
     (if day = ''Monday'' then 1 else if day = ''Tuesday'' then 2
      else if day = ''Wednesday'' then 3 else if day = ''Thursday'' then 4
      else if day = ''Friday'' then 5 else if day = ''Saturday'' then 6
      else if day = ''Sunday'' then 7 else 8)"

definition getActiveSlots :: "uuid \<Rightarrow> db \<Rightarrow> availability_slot list" where
  "getActiveSlots eventId d =
     sort_key (\<lambda>s. dayRank (s_day_of_week s))
       (sort_key s_start_time
         (filter (\<lambda>s. s_event_type_id s = eventId \<and> s_is_active s) (availability_slots d)))"

text \<open>DELETE /availability/:slotId (events.js 291-310). \<open>userId\<close> is \<^verbatim>\<open>req.userId\<close>, set by
  the authentication middleware for every request that reaches the route.\<close>

definition deleteAvailabilitySlot :: "uuid \<Rightarrow> uuid \<Rightarrow> db \<Rightarrow> (error + unit) \<times> db" where
  "deleteAvailabilitySlot userId slotId d =
     (let rows = filter (\<lambda>s. s_id s = slotId) (availability_slots d);
          d' = d\<lparr>availability_slots :=
                    map (\<lambda>s. if s_id s = slotId then s\<lparr>s_is_active := False\<rparr> else s)
                      (availability_slots d)\<rparr>
      in if length rows = 0 then (Inl NotFoundError, d') else (Inr (), d'))"

section \<open>Analytics counters (bookings.js 83-96, 377-390)\<close>

definition same_key :: "analytics_row \<Rightarrow> analytics_row \<Rightarrow> bool" where
  "same_key r r' \<longleftrightarrow>
     a_user_id r = a_user_id r' \<and> a_event_type_id r = a_event_type_id r' \<and> a_date r = a_date r'"

text \<open>What an accepted \<^verbatim>\<open>INSERT ... ON CONFLICT (user_id, event_type_id, date) DO UPDATE SET ...\<close>
  does to the table.\<close>

definition upsert :: "analytics_row \<Rightarrow> (analytics_row \<Rightarrow> analytics_row) \<Rightarrow> analytics_row list \<Rightarrow> analytics_row list" where
  "upsert new on_conflict rows =
     (if list_ex (same_key new) rows
      then map (\<lambda>r. if same_key new r then on_conflict r else r) rows
      else rows @ [new])"

text \<open>PostgreSQL analyses the expressions on the right of \<^verbatim>\<open>DO UPDATE SET\<close> with two rows in
  scope: the existing row under the table's name and the proposed row under \<^verbatim>\<open>excluded\<close>.
  Both have every column of the table, so a column named without a qualifier is ambiguous,
  and the statement is rejected (error 42702) when it is analysed, before any row is read:
  whether a row with the key exists makes no difference. \<open>refs\<close> are the column references
  on the right of \<^verbatim>\<open>SET\<close>.\<close>

datatype column_ref = Bare string | Qualified string string

definition analytics_columns :: "string list" where
  "analytics_columns =
     [''id'', ''user_id'', ''event_type_id'', ''event_type'', ''action_type'', ''visitor_count'',
      ''booking_count'', ''cancellation_count'', ''no_show_count'', ''revenue'', ''date'',
      ''created_at'', ''updated_at'']"

definition ambiguous :: "column_ref \<Rightarrow> bool" where
  "ambiguous c \<longleftrightarrow> (case c of Bare n \<Rightarrow> n \<in> set analytics_columns | Qualified t n \<Rightarrow> False)"

definition insert_on_conflict ::
  "column_ref list \<Rightarrow> analytics_row \<Rightarrow> (analytics_row \<Rightarrow> analytics_row) \<Rightarrow> analytics_row list
     \<Rightarrow> error + analytics_row list" where
  "insert_on_conflict refs new on_conflict rows =
     (if list_ex ambiguous refs then Inl StoreError else Inr (upsert new on_conflict rows))"

text \<open>bookings.js 86-92: \<^verbatim>\<open>DO UPDATE SET booking_count = booking_count + 1, updated_at = CURRENT_TIMESTAMP\<close>.\<close>

definition analytics_booking_created ::
  "uuid \<Rightarrow> uuid \<Rightarrow> instant \<Rightarrow> analytics_row list \<Rightarrow> error + analytics_row list" where
  "analytics_booking_created user_id event_type_id now rows =
     insert_on_conflict [Bare ''booking_count'']
       \<lparr>a_user_id = user_id, a_event_type_id = event_type_id, a_action_type = ''booking_created'',
        a_booking_count = 1, a_cancellation_count = 0, a_date = today now, a_updated_at = now\<rparr>
       (\<lambda>r. r\<lparr>a_booking_count := a_booking_count r + 1, a_updated_at := now\<rparr>) rows"

text \<open>bookings.js 380-386:
  \<^verbatim>\<open>DO UPDATE SET cancellation_count = COALESCE(cancellation_count, 0) + 1, updated_at = CURRENT_TIMESTAMP\<close>.\<close>

definition analytics_booking_cancelled ::
  "uuid \<Rightarrow> uuid \<Rightarrow> instant \<Rightarrow> analytics_row list \<Rightarrow> error + analytics_row list" where
  "analytics_booking_cancelled user_id event_type_id now rows =
     insert_on_conflict [Bare ''cancellation_count'']
       \<lparr>a_user_id = user_id, a_event_type_id = event_type_id, a_action_type = ''booking_cancelled'',
        a_booking_count = 0, a_cancellation_count = 1, a_date = today now, a_updated_at = now\<rparr>
       (\<lambda>r. r\<lparr>a_cancellation_count := a_cancellation_count r + 1, a_updated_at := now\<rparr>) rows"

text \<open>Each of the two statements sits in a try/catch that logs the error and goes on
  (bookings.js 84-96, 378-390): a rejected statement leaves the table as it was.\<close>

definition try_analytics :: "error + analytics_row list \<Rightarrow> analytics_row list \<Rightarrow> analytics_row list" where
  "try_analytics outcome rows = (case outcome of Inl analyticsError \<Rightarrow> rows | Inr rows' \<Rightarrow> rows')"

text \<open>The counter row stored for a key, and its cancellation count, 0 where no row exists.\<close>

definition counter_row :: "uuid \<Rightarrow> uuid \<Rightarrow> date \<Rightarrow> analytics_row list \<Rightarrow> analytics_row option" where
  "counter_row user_id event_type_id day rows =
     List.find (\<lambda>r. a_user_id r = user_id \<and> a_event_type_id r = event_type_id \<and> a_date r = day) rows"

definition cancellation_count_of :: "uuid \<Rightarrow> uuid \<Rightarrow> date \<Rightarrow> analytics_row list \<Rightarrow> int" where
  "cancellation_count_of user_id event_type_id day rows =
     (case counter_row user_id event_type_id day rows of None \<Rightarrow> 0 | Some r \<Rightarrow> a_cancellation_count r)"

section \<open>Meeting provisioning (services/googleMeetService.js 31-96)\<close>

text \<open>What Google Calendar does with the insert request is outside the program: either the
  call (or the credential loading before it) fails with a message, or it answers with the
  event id and, when a video entry point exists, its uri.\<close>

datatype calendar_api = ApiFailure string | ApiResponse string "string option"

record google_event =
  ge_success :: bool
  ge_eventId :: "string option"
  ge_meetLink :: "string option"

text \<open>\<open>createGoogleMeetEvent\<close>: the whole body is inside one try/catch, and the catch returns
  a fallback object with a generated link. \<open>rnd\<close> is \<^verbatim>\<open>Math.random().toString(36).substr(2, 9)\<close>.
  The result is the settled promise: \<open>Inl\<close> a rejection, \<open>Inr None\<close> a falsy value.\<close>

definition createGoogleMeetEvent :: "calendar_api \<Rightarrow> string \<Rightarrow> string + google_event option" where
  "createGoogleMeetEvent api rnd =
     (case api of
        ApiResponse eventId meetLink \<Rightarrow>
          Inr (Some \<lparr>ge_success = True, ge_eventId = Some eventId, ge_meetLink = meetLink\<rparr>)
      | ApiFailure msg \<Rightarrow>
          Inr (Some \<lparr>ge_success = False, ge_eventId = None,
                     ge_meetLink = Some (''https://meet.google.com/'' @ rnd)\<rparr>))"

section \<open>Booking engine (routes/bookings.js)\<close>

record booking_request =
  r_event_type_id :: uuid
  r_guest_name :: string
  r_guest_email :: string
  r_guest_phone :: "string option"
  r_guest_timezone :: "string option"
  r_scheduled_at :: instant
  r_description :: "string option"
  r_custom_fields :: "string option"

text \<open>What a createBooking call takes from outside the store: the \<^verbatim>\<open>uuidv4()\<close> it draws, the
  calendar service's behaviour, the random suffix of the fallback link, and the clock.\<close>

record create_env =
  ce_uuid :: uuid
  ce_calendar :: calendar_api
  ce_random :: string
  ce_now :: instant

text \<open>bookings.js 21-34: the event type, active and not soft-deleted, joined with its owner.\<close>

definition find_event_type :: "db \<Rightarrow> uuid \<Rightarrow> (event_type \<times> string) option" where
  "find_event_type d event_type_id =
     (case List.find (\<lambda>et. et_id et = event_type_id \<and> et_is_active et \<and> et_deleted_at et = None)
             (event_types d) of
        None \<Rightarrow> None
      | Some et \<Rightarrow>
          (case List.find (\<lambda>u. u_id u = et_user_id et) (users d) of
             None \<Rightarrow> None
           | Some u \<Rightarrow> Some (et, u_email u)))"

text \<open>bookings.js 39-44.\<close>

definition conflictCheck :: "booking list \<Rightarrow> uuid \<Rightarrow> instant \<Rightarrow> instant \<Rightarrow> booking list" where
  "conflictCheck bs event_type_id endTime scheduled_at =
     filter (\<lambda>b. b_event_type_id b = event_type_id \<and> b_status b = ''confirmed''
                 \<and> b_scheduled_at b < endTime \<and> b_end_time b > scheduled_at) bs"

text \<open>bookings.js 21-48: the reads before the first write. The result is what the handler
  holds when it goes on: the event type row and \<open>endTime\<close>. The start is the Date that
  \<^verbatim>\<open>Joi.date().iso()\<close> delivers; it and \<open>endTime\<close> are taken to lie in the range of Date.\<close>

definition createBooking_check :: "booking_request \<Rightarrow> db \<Rightarrow> error + ((event_type \<times> string) \<times> instant)" where
  "createBooking_check req d =
     (case find_event_type d (r_event_type_id req) of
        None \<Rightarrow> Inl NotFoundError
      | Some eventType \<Rightarrow>
          let endTime = addMinutes (r_scheduled_at req) (et_duration_minutes (fst eventType))
          in if length (conflictCheck (bookings d) (r_event_type_id req) endTime (r_scheduled_at req)) > 0
             then Inl ConflictError
             else Inr (eventType, endTime))"

text \<open>bookings.js 50-70: the call of \<open>createGoogleMeetEvent\<close> in its try/catch; the pair is
  \<open>(meetLink, googleEventId)\<close>, both \<open>null\<close> at the start.\<close>

definition provision :: "calendar_api \<Rightarrow> string \<Rightarrow> string option \<times> string option" where
  "provision api rnd =
     (case createGoogleMeetEvent api rnd of
        Inl googleError \<Rightarrow> (None, None)
      | Inr None \<Rightarrow> (None, None)
      | Inr (Some googleEvent) \<Rightarrow> (ge_meetLink googleEvent, ge_eventId googleEvent))"

text \<open>bookings.js 72-79: the row of the INSERT; status, the timestamps and the NULLs are the
  column defaults of the schema.\<close>

definition insert_row ::
  "booking_request \<Rightarrow> uuid \<Rightarrow> event_type \<Rightarrow> instant \<Rightarrow> string option \<times> string option \<Rightarrow> instant \<Rightarrow> booking" where
  "insert_row req bookingId et endTime meet now =
     \<lparr>b_id = bookingId, b_event_type_id = r_event_type_id req,
      b_user_id = et_user_id et, b_guest_name = r_guest_name req,
      b_guest_email = r_guest_email req, b_guest_phone = r_guest_phone req,
      b_guest_timezone = r_guest_timezone req,
      b_scheduled_at = r_scheduled_at req, b_end_time = endTime,
      b_duration_minutes = et_duration_minutes et,
      b_description = r_description req, b_google_meet_link = fst meet,
      b_status = ''confirmed'',
      b_custom_fields = (case r_custom_fields req of None \<Rightarrow> ''{}'' | Some j \<Rightarrow> j),
      b_google_calendar_event_id = snd meet,
      b_cancelled_at = None, b_cancellation_reason = None,
      b_created_at = now, b_updated_at = now, b_deleted_at = None\<rparr>"

text \<open>bookings.js 50-213: provisioning, the INSERT, and the effects after it. A failing
  INSERT (the primary key rejects an id already present) leaves the handler through
  \<^verbatim>\<open>next(error)\<close>. The e-mail and reminder calls (127-197) write nothing to the store, each
  sits in its own try/catch, and they are not part of the store model.\<close>

definition createBooking_commit ::
  "booking_request \<Rightarrow> create_env \<Rightarrow> (event_type \<times> string) \<Rightarrow> instant \<Rightarrow> db \<Rightarrow> (error + booking) \<times> db" where
  "createBooking_commit req env eventType endTime d =
     (let et = fst eventType;
          meet = provision (ce_calendar env) (ce_random env);
          bookingId = ce_uuid env
      in if list_ex (\<lambda>b. b_id b = bookingId) (bookings d) then (Inl StoreError, d)
         else
           let booking = insert_row req bookingId et endTime meet (ce_now env);
               d1 = d\<lparr>bookings := bookings d @ [booking]\<rparr>;
               d2 = d1\<lparr>analytics :=
                         try_analytics
                           (analytics_booking_created (et_user_id et) (r_event_type_id req) (ce_now env)
                              (analytics d1))
                           (analytics d1)\<rparr>;
               d3 = d2\<lparr>availability_slots :=
                         consumeSlot (r_event_type_id req) (dayOfWeek (r_scheduled_at req))
                           (toTimeString_HHMM (r_scheduled_at req)) (toTimeString_HHMM endTime)
                           (ce_now env) (availability_slots d2)\<rparr>
           in (Inr booking, d3))"

text \<open>POST / (bookings.js 12-217). \<open>validation\<close> is the outcome of
  \<^verbatim>\<open>validate(bookingSchema, req.body)\<close>: \<open>None\<close> when the body is invalid, otherwise the
  validated data, with \<open>scheduled_at\<close> converted to a Date and \<open>custom_fields\<close> as its JSON
  text.\<close>

definition createBooking :: "booking_request option \<Rightarrow> create_env \<Rightarrow> db \<Rightarrow> (error + booking) \<times> db" where
  "createBooking validation env d =
     (case validation of
        None \<Rightarrow> (Inl ValidationError, d)
      | Some req \<Rightarrow>
          (case createBooking_check req d of
             Inl e \<Rightarrow> (Inl e, d)
           | Inr (eventType, endTime) \<Rightarrow> createBooking_commit req env eventType endTime d))"

text \<open>GET / (bookings.js 219-281). A filter given as the empty string is falsy and is not
  applied. The rows come back by \<open>scheduled_at\<close>, latest first; the response shows a
  projection of each row.\<close>

definition truthy :: "string option \<Rightarrow> bool" where
  "truthy x \<longleftrightarrow> (case x of None \<Rightarrow> False | Some s \<Rightarrow> s \<noteq> [])"



text \<open>PUT /:bookingId/cancel (bookings.js 323-441). \<^verbatim>\<open>reason || null\<close> turns an empty
  reason into NULL. When the event type row is missing, reading \<^verbatim>\<open>eventType.user_id\<close>
  throws inside the try block of the analytics update, which is then skipped.\<close>

definition or_null :: "string option \<Rightarrow> string option" where
  "or_null reason = (if truthy reason then reason else None)"

definition cancel_row :: "string option \<Rightarrow> instant \<Rightarrow> booking \<Rightarrow> booking" where
  "cancel_row reason now b =
     b\<lparr>b_status := ''cancelled'', b_cancelled_at := Some now, b_cancellation_reason := or_null reason\<rparr>"

definition cancelBooking :: "uuid \<Rightarrow> uuid \<Rightarrow> string option \<Rightarrow> instant \<Rightarrow> db \<Rightarrow> (error + booking) \<times> db" where
  "cancelBooking bookingId userId reason now d =
     (case List.find (\<lambda>b. b_id b = bookingId \<and> b_user_id b = userId \<and> b_deleted_at b = None)
             (bookings d) of
        None \<Rightarrow> (Inl NotFoundError, d)
      | Some booking \<Rightarrow>
          let eventType = List.find (\<lambda>et. et_id et = b_event_type_id booking) (event_types d);
              d1 = d\<lparr>bookings :=
                        map (\<lambda>b. if b_id b = bookingId \<and> b_user_id b = userId
                                  then cancel_row reason now b else b)
                          (bookings d)\<rparr>;
              d2 = d1\<lparr>availability_slots :=
                        releaseSlot (b_event_type_id booking) (dayOfWeek (b_scheduled_at booking))
                          (toTimeString_HHMM (b_scheduled_at booking)) now (availability_slots d1)\<rparr>;
              d3 = (case eventType of
                      None \<Rightarrow> d2
                    | Some et \<Rightarrow>
                        d2\<lparr>analytics :=
                              try_analytics
                                (analytics_booking_cancelled (et_user_id et) (b_event_type_id booking) now
                                   (analytics d2))
                                (analytics d2)\<rparr>)
          in (Inr (cancel_row reason now booking), d3))"

text \<open>PUT /:bookingId/reschedule (bookings.js 443-554). The route does not validate
  \<^verbatim>\<open>scheduled_at\<close> and uses it in two ways: \<^verbatim>\<open>new Date(scheduled_at)\<close> gives the instant from
  which the new end and the slot window are computed (\<open>None\<close>: an Invalid Date), and the
  value itself is the parameter for the new start that PostgreSQL reads into a TIMESTAMP
  column, a date and time without zone, so that an offset in the text is dropped (\<open>None\<close>:
  PostgreSQL rejects the text). For \<^verbatim>\<open>1970-01-05T15:30:00+05:30\<close> the first is 10:00 UTC and
  the second 15:30.\<close>

record reschedule_body =
  rb_date :: "instant option"
  rb_timestamp :: "instant option"

text \<open>The range of Date: a time value beyond it is an Invalid Date, and \<^verbatim>\<open>toISOString()\<close>
  of an Invalid Date throws a RangeError.\<close>

definition valid_date :: "instant \<Rightarrow> bool" where
  "valid_date t \<longleftrightarrow> - 8640000000000000 \<le> t \<and> t \<le> 8640000000000000"

definition conflictCheck_reschedule :: "booking list \<Rightarrow> uuid \<Rightarrow> uuid \<Rightarrow> instant \<Rightarrow> instant \<Rightarrow> booking list" where
  "conflictCheck_reschedule bs event_type_id bookingId newEndTime scheduled_at =
     filter (\<lambda>b. b_event_type_id b = event_type_id \<and> b_id b \<noteq> bookingId \<and> b_status b = ''confirmed''
                 \<and> b_scheduled_at b < newEndTime \<and> b_end_time b > scheduled_at) bs"

definition move_row :: "instant \<Rightarrow> instant \<Rightarrow> instant \<Rightarrow> booking \<Rightarrow> booking" where
  "move_row scheduled_at newEndTime now b =
     b\<lparr>b_scheduled_at := scheduled_at, b_end_time := newEndTime, b_updated_at := now\<rparr>"

text \<open>\<open>body\<close> is \<open>None\<close> when \<^verbatim>\<open>scheduled_at\<close> is missing or falsy. The lookup asks for the
  owner and status confirmed; the conflict query leaves out the booking itself; the
  exception of \<^verbatim>\<open>toISOString()\<close> and a text that PostgreSQL rejects both arise at the
  conflict query, before any write.\<close>

definition rescheduleBooking ::
  "uuid \<Rightarrow> uuid \<Rightarrow> reschedule_body option \<Rightarrow> instant \<Rightarrow> db \<Rightarrow> (error + booking) \<times> db" where
  "rescheduleBooking bookingId userId body now d =
     (case body of
        None \<Rightarrow> (Inl ValidationError, d)
      | Some scheduled_at \<Rightarrow>
          (case List.find (\<lambda>b. b_id b = bookingId \<and> b_user_id b = userId \<and> b_status b = ''confirmed'')
                  (bookings d) of
             None \<Rightarrow> (Inl NotFoundError, d)
           | Some oldBooking \<Rightarrow>
               (case rb_date scheduled_at of
                  None \<Rightarrow> (Inl StoreError, d)
                | Some newStart \<Rightarrow>
                    let newEndTime = addMinutes newStart (b_duration_minutes oldBooking)
                    in if \<not> valid_date newEndTime then (Inl StoreError, d)
                       else
                         (case rb_timestamp scheduled_at of
                            None \<Rightarrow> (Inl StoreError, d)
                          | Some start \<Rightarrow>
                              if length (conflictCheck_reschedule (bookings d)
                                           (b_event_type_id oldBooking) bookingId newEndTime start) > 0
                              then (Inl ConflictError, d)
                              else
                                let d1 = d\<lparr>availability_slots :=
                                              releaseSlot (b_event_type_id oldBooking)
                                                (dayOfWeek (b_scheduled_at oldBooking))
                                                (toTimeString_HHMM (b_scheduled_at oldBooking)) now
                                                (availability_slots d)\<rparr>;
                                    d2 = d1\<lparr>availability_slots :=
                                               consumeSlot (b_event_type_id oldBooking)
                                                 (dayOfWeek newStart) (toTimeString_HHMM newStart)
                                                 (toTimeString_HHMM newEndTime) now
                                                 (availability_slots d1)\<rparr>;
                                    d3 = d2\<lparr>bookings :=
                                               map (\<lambda>b. if b_id b = bookingId
                                                         then move_row start newEndTime now b else b)
                                                 (bookings d2)\<rparr>
                                in (Inr (move_row start newEndTime now oldBooking), d3)))))"

section \<open>Calls run one after the other, and two handlers running at once\<close>

text \<open>A call with what it takes from outside the store. \<open>run_in_turn\<close> runs a list of calls
  one after the other: each handler runs from its first query to its answer before the next
  one starts. It does not cover executions in which the queries of two handlers alternate;
  \<open>run2\<close> below does, for two createBooking handlers.\<close>

datatype op =
    CreateBooking "booking_request option" create_env
  | RescheduleBooking uuid uuid "reschedule_body option" instant
  | CancelBooking uuid uuid "string option" instant

fun apply_op :: "op \<Rightarrow> db \<Rightarrow> db" where
  "apply_op (CreateBooking validation env) d = snd (createBooking validation env d)"
| "apply_op (RescheduleBooking bookingId userId body now) d = snd (rescheduleBooking bookingId userId body now d)"
| "apply_op (CancelBooking bookingId userId reason now) d = snd (cancelBooking bookingId userId reason now d)"

fun run_in_turn :: "op list \<Rightarrow> db \<Rightarrow> db" where
  "run_in_turn [] d = d"
| "run_in_turn (x # xs) d = run_in_turn xs (apply_op x d)"

text \<open>The half-open overlap test of the specification: [a, b) and [c, d) overlap when
  a < d and c < b.\<close>

definition overlaps :: "booking \<Rightarrow> booking \<Rightarrow> bool" where
  "overlaps B1 B2 \<longleftrightarrow> b_scheduled_at B1 < b_end_time B2 \<and> b_scheduled_at B2 < b_end_time B1"

text \<open>A createBooking handler awaits each query: between its conflict check and its INSERT
  (no transaction joins them) another handler may run. A handler is at its start, has passed
  the check, or has answered.\<close>

datatype handler =
    Start booking_request create_env
  | Checked booking_request create_env "event_type \<times> string" instant
  | Answered "error + booking"

fun step :: "handler \<Rightarrow> db \<Rightarrow> handler \<times> db" where
  "step (Start req env) d =
     (case createBooking_check req d of
        Inl e \<Rightarrow> (Answered (Inl e), d)
      | Inr (eventType, endTime) \<Rightarrow> (Checked req env eventType endTime, d))"
| "step (Checked req env eventType endTime) d =
     (case createBooking_commit req env eventType endTime d of (r, d') \<Rightarrow> (Answered r, d'))"
| "step (Answered r) d = (Answered r, d)"

text \<open>A schedule says whose step comes next: \<open>True\<close> the first handler's, \<open>False\<close> the second's.\<close>

fun run2 :: "bool list \<Rightarrow> handler \<Rightarrow> handler \<Rightarrow> db \<Rightarrow> handler \<times> handler \<times> db" where
  "run2 [] p q d = (p, q, d)"
| "run2 (True # sched) p q d = (case step p d of (p', d') \<Rightarrow> run2 sched p' q d')"
| "run2 (False # sched) p q d = (case step q d of (q', d') \<Rightarrow> run2 sched p q' d')"

section \<open>Example data\<close>

text \<open>One owner with one 30-minute event type and two Monday slots, 10:00-10:30 and
  10:15-10:45. \<open>monday_10_00\<close> is Monday 5 January 1970, 10:00 UTC.\<close>

definition monday_10_00 :: instant where
  "monday_10_00 = 381600000"

definition ex_slots :: "availability_slot list" where
  "ex_slots =
     [\<lparr>s_id = ''s1'', s_event_type_id = ''e1'', s_day_of_week = ''Monday'',
       s_start_time = 36000, s_end_time = 37800, s_is_active = True, s_updated_at = 0\<rparr>,
      \<lparr>s_id = ''s2'', s_event_type_id = ''e1'', s_day_of_week = ''Monday'',
       s_start_time = 36900, s_end_time = 38700, s_is_active = True, s_updated_at = 0\<rparr>]"

definition ex_event :: event_type where
  "ex_event = \<lparr>et_id = ''e1'', et_user_id = ''u1'', et_name = ''Intro'', et_duration_minutes = 30,
               et_is_active = True, et_deleted_at = None\<rparr>"

definition ex_db :: db where
  "ex_db = \<lparr>users = [\<lparr>u_id = ''u1'', u_email = ''o@x''\<rparr>], event_types = [ex_event],
            availability_slots = ex_slots, bookings = [], analytics = []\<rparr>"

definition ex_req :: "instant \<Rightarrow> booking_request" where
  "ex_req t = \<lparr>r_event_type_id = ''e1'', r_guest_name = ''G'', r_guest_email = ''g@x'',
               r_guest_phone = None, r_guest_timezone = None, r_scheduled_at = t,
               r_description = None, r_custom_fields = None\<rparr>"

definition ex_env :: "uuid \<Rightarrow> calendar_api \<Rightarrow> create_env" where
  "ex_env i api = \<lparr>ce_uuid = i, ce_calendar = api, ce_random = ''abc'', ce_now = 1000\<rparr>"

text \<open>The booking that the request for Monday 10:00 creates when the calendar service is
  down, and the store after it: the booking added, both slots deactivated, the analytics
  table still empty.\<close>

definition ex_booking :: "uuid \<Rightarrow> instant \<Rightarrow> booking" where
  "ex_booking i t =
     \<lparr>b_id = i, b_event_type_id = ''e1'', b_user_id = ''u1'', b_guest_name = ''G'',
      b_guest_email = ''g@x'', b_guest_phone = None, b_guest_timezone = None,
      b_scheduled_at = t, b_end_time = t + 1800000, b_duration_minutes = 30,
      b_description = None, b_google_meet_link = Some ''https://meet.google.com/abc'',
      b_status = ''confirmed'', b_custom_fields = ''{}'', b_google_calendar_event_id = None,
      b_cancelled_at = None, b_cancellation_reason = None,
      b_created_at = 1000, b_updated_at = 1000, b_deleted_at = None\<rparr>"

definition ex_db1 :: db where
  "ex_db1 =
     \<lparr>users = [\<lparr>u_id = ''u1'', u_email = ''o@x''\<rparr>], event_types = [ex_event],
      availability_slots =
        [\<lparr>s_id = ''s1'', s_event_type_id = ''e1'', s_day_of_week = ''Monday'',
          s_start_time = 36000, s_end_time = 37800, s_is_active = False, s_updated_at = 1000\<rparr>,
         \<lparr>s_id = ''s2'', s_event_type_id = ''e1'', s_day_of_week = ''Monday'',
          s_start_time = 36900, s_end_time = 38700, s_is_active = False, s_updated_at = 1000\<rparr>],
      bookings = [ex_booking ''b1'' monday_10_00],
      analytics = []\<rparr>"

text \<open>The same store with a second confirmed booking at 11:00.\<close>

definition ex_db2 :: db where
  "ex_db2 = ex_db1\<lparr>bookings := [ex_booking ''b1'' monday_10_00, ex_booking ''b2'' (monday_10_00 + 3600000)]\<rparr>"

text \<open>Four calls on the example store: bookings for 10:00, 10:15 (refused) and 10:30, then
  the third booking moved to 11:00 (\<^verbatim>\<open>1970-01-05T11:00:00Z\<close>).\<close>

definition ex_ops :: "op list" where
  "ex_ops =
     [CreateBooking (Some (ex_req monday_10_00)) (ex_env ''b1'' (ApiFailure ''down'')),
      CreateBooking (Some (ex_req (monday_10_00 + 900000))) (ex_env ''b2'' (ApiFailure ''down'')),
      CreateBooking (Some (ex_req (monday_10_00 + 1800000))) (ex_env ''b3'' (ApiFailure ''down'')),
      RescheduleBooking ''b3'' ''u1''
        (Some \<lparr>rb_date = Some (monday_10_00 + 3600000), rb_timestamp = Some (monday_10_00 + 3600000)\<rparr>)
        4000]"

text \<open>The invariant of the bookings table: the rows at two different positions have
  different ids, and when both are confirmed bookings of one event type their half-open
  intervals do not overlap.\<close>

definition separate :: "booking list \<Rightarrow> bool" where
  "separate bs \<longleftrightarrow>
     (\<forall>i<length bs. \<forall>j<length bs. i \<noteq> j \<longrightarrow>
        b_id (bs ! i) \<noteq> b_id (bs ! j)
        \<and> (b_status (bs ! i) = ''confirmed'' \<and> b_status (bs ! j) = ''confirmed''
             \<and> b_event_type_id (bs ! i) = b_event_type_id (bs ! j)
            \<longrightarrow> \<not> overlaps (bs ! i) (bs ! j)))"

section \<open>Availability slots: consuming and releasing\<close>

lemma consumeSlot_nth:
  "i < length slots \<Longrightarrow>
   consumeSlot e day st en now slots ! i =
     (if s_event_type_id (slots ! i) = e \<and> s_day_of_week (slots ! i) = day
          \<and> s_start_time (slots ! i) < en \<and> s_end_time (slots ! i) > st
      then (slots ! i)\<lparr>s_is_active := False, s_updated_at := now\<rparr> else slots ! i)"
  by (simp add: consumeSlot_def)

lemma releaseSlot_nth:
  "i < length slots \<Longrightarrow>
   releaseSlot e day st now slots ! i =
     (if s_event_type_id (slots ! i) = e \<and> s_day_of_week (slots ! i) = day
          \<and> s_start_time (slots ! i) = st
      then (slots ! i)\<lparr>s_is_active := True, s_updated_at := now\<rparr> else slots ! i)"
  by (simp add: releaseSlot_def)

lemma length_consumeSlot: "length (consumeSlot e day st en now slots) = length slots"
  by (simp add: consumeSlot_def)

lemma length_releaseSlot: "length (releaseSlot e day st now slots) = length slots"
  by (simp add: releaseSlot_def)

lemma consumeSlot_nth_frame:
  "i < length slots \<Longrightarrow>
   s_event_type_id (consumeSlot e day st en now slots ! i) = s_event_type_id (slots ! i)
   \<and> s_day_of_week (consumeSlot e day st en now slots ! i) = s_day_of_week (slots ! i)
   \<and> s_start_time (consumeSlot e day st en now slots ! i) = s_start_time (slots ! i)"
  by (simp add: consumeSlot_nth)

text \<open>
  Claim C5. For the slot row at position \<open>i\<close> (\<open>s\<close> before, \<open>c\<close> after consumeSlot, \<open>r\<close> after
  the releaseSlot that follows, same event type, day and start): consumeSlot deactivates the
  row when it is a slot of the event type and day whose interval intersects the booked
  window [st, en), and leaves every other row as it was; releaseSlot reactivates the row
  when its start equals \<open>st\<close> and leaves every other row as consumeSlot left it. So a row
  whose start equals the booking start is active again, and a row deactivated by
  intersection with a different start stays inactive.
\<close>

theorem consume_then_release:
  assumes "i < length slots"
    and "s = slots ! i"
    and "c = consumeSlot e day st en now slots ! i"
    and "r = releaseSlot e day st now' (consumeSlot e day st en now slots) ! i"
    and "mine \<longleftrightarrow> s_event_type_id s = e \<and> s_day_of_week s = day"
    and "hit \<longleftrightarrow> s_start_time s < en \<and> s_end_time s > st"
  shows "(mine \<and> hit \<longrightarrow> \<not> s_is_active c)
       \<and> (\<not> (mine \<and> hit) \<longrightarrow> c = s)
       \<and> (mine \<and> s_start_time s = st \<longrightarrow> s_is_active r)
       \<and> (\<not> (mine \<and> s_start_time s = st) \<longrightarrow> r = c)
       \<and> (mine \<and> hit \<and> s_start_time s \<noteq> st \<longrightarrow> \<not> s_is_active r)"
proof -
  have c_eq: "c = (if mine \<and> hit then s\<lparr>s_is_active := False, s_updated_at := now\<rparr> else s)"
    using assms(1) unfolding assms(2-6) by (simp add: consumeSlot_nth)
  have "r = (if s_event_type_id c = e \<and> s_day_of_week c = day \<and> s_start_time c = st
             then c\<lparr>s_is_active := True, s_updated_at := now'\<rparr> else c)"
    using assms(1) unfolding assms(3,4) by (simp add: releaseSlot_nth length_consumeSlot)
  moreover have "s_event_type_id c = s_event_type_id s" "s_day_of_week c = s_day_of_week s"
      "s_start_time c = s_start_time s"
    using consumeSlot_nth_frame [OF assms(1)] unfolding assms(2,3) by simp_all
  ultimately have r_eq:
    "r = (if mine \<and> s_start_time s = st then c\<lparr>s_is_active := True, s_updated_at := now'\<rparr> else c)"
    unfolding assms(5) by simp
  have 1: "mine \<and> hit \<longrightarrow> \<not> s_is_active c" by (simp add: c_eq)
  have 2: "\<not> (mine \<and> hit) \<longrightarrow> c = s" by (simp add: c_eq)
  have 3: "mine \<and> s_start_time s = st \<longrightarrow> s_is_active r" by (simp add: r_eq)
  have 4: "\<not> (mine \<and> s_start_time s = st) \<longrightarrow> r = c" by (simp add: r_eq)
  from 1 4 have 5: "mine \<and> hit \<and> s_start_time s \<noteq> st \<longrightarrow> \<not> s_is_active r" by auto
  from 1 2 3 4 5 show ?thesis by blast
qed

theorem consume_then_release_witness:
  "s_is_active (releaseSlot ''e1'' ''Monday'' 36000 2
      (consumeSlot ''e1'' ''Monday'' 36000 37800 1 ex_slots) ! 0)
   \<and> s_is_active (ex_slots ! 1)
   \<and> \<not> s_is_active (releaseSlot ''e1'' ''Monday'' 36000 2
      (consumeSlot ''e1'' ''Monday'' 36000 37800 1 ex_slots) ! 1)"
proof -
  have len: "0 < length ex_slots" "1 < length ex_slots"
    by (simp_all add: ex_slots_def)
  have s0: "s_event_type_id (ex_slots ! 0) = ''e1'' \<and> s_day_of_week (ex_slots ! 0) = ''Monday''
      \<and> s_start_time (ex_slots ! 0) = 36000"
    by (simp add: ex_slots_def)
  have s1: "s_event_type_id (ex_slots ! 1) = ''e1'' \<and> s_day_of_week (ex_slots ! 1) = ''Monday''
      \<and> s_start_time (ex_slots ! 1) < 37800 \<and> s_end_time (ex_slots ! 1) > 36000
      \<and> s_start_time (ex_slots ! 1) \<noteq> 36000 \<and> s_is_active (ex_slots ! 1)"
    by (simp add: ex_slots_def)
  from consume_then_release [where e = "''e1''" and day = "''Monday''" and st = 36000 and en = 37800
      and now = 1 and now' = 2, OF len(1) refl refl refl refl refl] s0
  have a: "s_is_active (releaseSlot ''e1'' ''Monday'' 36000 2
      (consumeSlot ''e1'' ''Monday'' 36000 37800 1 ex_slots) ! 0)"
    by blast
  from consume_then_release [where e = "''e1''" and day = "''Monday''" and st = 36000 and en = 37800
      and now = 1 and now' = 2, OF len(2) refl refl refl refl refl] s1
  have b: "\<not> s_is_active (releaseSlot ''e1'' ''Monday'' 36000 2
      (consumeSlot ''e1'' ''Monday'' 36000 37800 1 ex_slots) ! 1)"
    by blast
  from a b s1 show ?thesis by blast
qed

section \<open>Creating a booking\<close>

lemmas time_defs = addMinutes_def minutes_ms_def today_def dayOfWeek_def getDay_def dayNames_def
  toTimeString_HHMM_def monday_10_00_def

lemmas analytics_defs = analytics_booking_created_def analytics_booking_cancelled_def
  insert_on_conflict_def ambiguous_def analytics_columns_def try_analytics_def

lemmas create_defs = createBooking_def createBooking_check_def createBooking_commit_def
  find_event_type_def conflictCheck_def insert_row_def provision_def createGoogleMeetEvent_def
  analytics_defs consumeSlot_def Let_def

lemmas ex_defs = ex_db_def ex_db1_def ex_db2_def ex_req_def ex_env_def ex_event_def ex_booking_def ex_slots_def

lemma conflictCheck_nonempty:
  "length (conflictCheck bs e endTime st) > 0 \<longleftrightarrow>
     (\<exists>b\<in>set bs. b_event_type_id b = e \<and> b_status b = ''confirmed''
        \<and> b_scheduled_at b < endTime \<and> st < b_end_time b)"
  by (auto simp: conflictCheck_def filter_empty_conv)

lemma createBooking_check_cases:
  assumes "find_event_type d (r_event_type_id req) = Some (et, email)"
  shows "createBooking_check req d =
     (if \<exists>b\<in>set (bookings d). b_event_type_id b = r_event_type_id req \<and> b_status b = ''confirmed''
            \<and> b_scheduled_at b < r_scheduled_at req + et_duration_minutes et * 60000
            \<and> r_scheduled_at req < b_end_time b
      then Inl ConflictError
      else Inr ((et, email), r_scheduled_at req + et_duration_minutes et * 60000))"
  using assms
  by (simp add: createBooking_check_def Let_def conflictCheck_nonempty addMinutes_def minutes_ms_def
      del: length_greater_0_conv)

lemma analytics_booking_created_rejected:
  "analytics_booking_created user_id event_type_id now rows = Inl StoreError"
  by (simp add: analytics_booking_created_def insert_on_conflict_def ambiguous_def analytics_columns_def)

lemma analytics_booking_cancelled_rejected:
  "analytics_booking_cancelled user_id event_type_id now rows = Inl StoreError"
  by (simp add: analytics_booking_cancelled_def insert_on_conflict_def ambiguous_def analytics_columns_def)

lemma createBooking_commit_fresh:
  assumes "\<not> list_ex (\<lambda>b. b_id b = ce_uuid env) (bookings d)"
  shows "createBooking_commit req env (et, email) endTime d =
     (Inr (insert_row req (ce_uuid env) et endTime (provision (ce_calendar env) (ce_random env)) (ce_now env)),
      d\<lparr>bookings := bookings d @
            [insert_row req (ce_uuid env) et endTime (provision (ce_calendar env) (ce_random env)) (ce_now env)],
        availability_slots := consumeSlot (r_event_type_id req) (dayOfWeek (r_scheduled_at req))
           (toTimeString_HHMM (r_scheduled_at req)) (toTimeString_HHMM endTime) (ce_now env)
           (availability_slots d)\<rparr>)"
  using assms
  by (simp add: createBooking_commit_def Let_def analytics_booking_created_rejected try_analytics_def)



section \<open>Meeting provisioning failures\<close>

lemma createGoogleMeetEvent_settles:
  "\<exists>googleEvent. createGoogleMeetEvent api rnd = Inr (Some googleEvent)"
  by (cases api) (simp_all add: createGoogleMeetEvent_def)





section \<open>Soft-deleted bookings\<close>





section \<open>Analytics counters\<close>

lemma cancelBooking_found:
  assumes "List.find (\<lambda>b. b_id b = bookingId \<and> b_user_id b = userId \<and> b_deleted_at b = None)
             (bookings d) = Some booking"
  shows "fst (cancelBooking bookingId userId reason now d) = Inr (cancel_row reason now booking)"
    and "bookings (snd (cancelBooking bookingId userId reason now d)) =
           map (\<lambda>b. if b_id b = bookingId \<and> b_user_id b = userId then cancel_row reason now b else b)
             (bookings d)"
    and "availability_slots (snd (cancelBooking bookingId userId reason now d)) =
           releaseSlot (b_event_type_id booking) (dayOfWeek (b_scheduled_at booking))
             (toTimeString_HHMM (b_scheduled_at booking)) now (availability_slots d)"
    and "analytics (snd (cancelBooking bookingId userId reason now d)) = analytics d"
    and "event_types (snd (cancelBooking bookingId userId reason now d)) = event_types d"
    and "users (snd (cancelBooking bookingId userId reason now d)) = users d"
  using assms
  by (simp_all add: cancelBooking_def Let_def analytics_booking_cancelled_rejected try_analytics_def
      split: option.splits)

lemma cancelBooking_analytics:
  "analytics (snd (cancelBooking bookingId userId reason now d)) = analytics d"
proof (cases "List.find (\<lambda>b. b_id b = bookingId \<and> b_user_id b = userId \<and> b_deleted_at b = None) (bookings d)")
  case None
  then show ?thesis by (simp add: cancelBooking_def)
next
  case (Some booking)
  then show ?thesis by (rule cancelBooking_found(4))
qed

text \<open>
  Claim C8 asks that a successful cancelBooking raises the cancellation count of (owner,
  event type, today) by exactly 1, through an upsert that creates the counter row where none
  exists. Both analytics statements name their counter without a qualifier on the right of
  \<^verbatim>\<open>DO UPDATE SET\<close>, so PostgreSQL rejects them whenever they run, and the try/catch around
  them drops the error. On the example store, where the booking b1 was created at Monday
  10:00, no counter row exists after the creation; the owner's cancelBooking succeeds, and
  afterwards there is still no counter row: the cancellation count reads 0 before and after.
\<close>

theorem analytics_statements_rejected:
  "analytics_booking_created ''u1'' ''e1'' 1000 [] = Inl StoreError
   \<and> analytics_booking_cancelled ''u1'' ''e1'' 2000 [] = Inl StoreError
   \<and> fst (createBooking (Some (ex_req monday_10_00)) (ex_env ''b1'' (ApiFailure ''down'')) ex_db)
       = Inr (ex_booking ''b1'' monday_10_00)
   \<and> analytics (snd (createBooking (Some (ex_req monday_10_00)) (ex_env ''b1'' (ApiFailure ''down'')) ex_db))
       = []
   \<and> bookings ex_db1 = [ex_booking ''b1'' monday_10_00]
   \<and> fst (cancelBooking ''b1'' ''u1'' None 2000 ex_db1)
       = Inr (cancel_row None 2000 (ex_booking ''b1'' monday_10_00))
   \<and> b_status (cancel_row None 2000 (ex_booking ''b1'' monday_10_00)) = ''cancelled''
   \<and> analytics (snd (cancelBooking ''b1'' ''u1'' None 2000 ex_db1)) = []
   \<and> cancellation_count_of ''u1'' ''e1'' (today 2000) (analytics ex_db1) = 0
   \<and> cancellation_count_of ''u1'' ''e1'' (today 2000)
        (analytics (snd (cancelBooking ''b1'' ''u1'' None 2000 ex_db1))) = 0"
proof -
  have f: "List.find (\<lambda>b. b_id b = ''b1'' \<and> b_user_id b = ''u1'' \<and> b_deleted_at b = None) (bookings ex_db1)
      = Some (ex_booking ''b1'' monday_10_00)"
    by (simp add: ex_defs)
  have e: "analytics ex_db1 = []" "bookings ex_db1 = [ex_booking ''b1'' monday_10_00]"
    by (simp_all add: ex_defs)
  have c: "createBooking (Some (ex_req monday_10_00)) (ex_env ''b1'' (ApiFailure ''down'')) ex_db
      = (Inr (ex_booking ''b1'' monday_10_00), ex_db1)"
    by (simp add: create_defs time_defs ex_defs)
  have z: "cancellation_count_of ''u1'' ''e1'' (today 2000) [] = 0"
    by (simp add: cancellation_count_of_def counter_row_def)
  have s: "b_status (cancel_row None 2000 (ex_booking ''b1'' monday_10_00)) = ''cancelled''"
    by (simp add: cancel_row_def)
  show ?thesis
    by (simp add: analytics_booking_created_rejected analytics_booking_cancelled_rejected c e z s
        cancelBooking_found(1) [OF f] cancelBooking_found(4) [OF f])
qed

section \<open>Deleting an availability slot\<close>

lemma deleteAvailabilitySlot_found:
  assumes "list_ex (\<lambda>s. s_id s = slotId) (availability_slots d)"
  shows "deleteAvailabilitySlot userId slotId d =
     (Inr (), d\<lparr>availability_slots :=
                  map (\<lambda>s. if s_id s = slotId then s\<lparr>s_is_active := False\<rparr> else s) (availability_slots d)\<rparr>)"
proof -
  from assms have "length (filter (\<lambda>s. s_id s = slotId) (availability_slots d)) \<noteq> 0"
    by (auto simp: list_ex_iff filter_empty_conv)
  then show ?thesis
    unfolding deleteAvailabilitySlot_def Let_def by (simp only: if_False)
qed

lemma deactivated_rows:
  assumes "s \<in> set (map (\<lambda>s. if s_id s = slotId then s\<lparr>s_is_active := False\<rparr> else s) xs)"
    and "s_id s = slotId"
  shows "\<not> s_is_active s"
proof -
  from assms(1) have "\<exists>x \<in> set xs. s = (if s_id x = slotId then x\<lparr>s_is_active := False\<rparr> else x)"
    unfolding set_map by (rule imageE) (rule bexI)
  then obtain x where s: "s = (if s_id x = slotId then x\<lparr>s_is_active := False\<rparr> else x)" ..
  from s assms(2) show ?thesis
    by (cases "s_id x = slotId") simp_all
qed

text \<open>
  Claim C10. The outcome and the effect of deleting an availability slot are the same for
  any two callers: the route never reads the caller's identity. When a row with the slot id
  exists, the call succeeds for every caller and every row with that id ends inactive,
  whoever owns the event type of the slot.
\<close>

theorem delete_slot_any_caller:
  "deleteAvailabilitySlot caller1 slotId d = deleteAvailabilitySlot caller2 slotId d
   \<and> (list_ex (\<lambda>s. s_id s = slotId) (availability_slots d) \<longrightarrow>
        fst (deleteAvailabilitySlot caller1 slotId d) = Inr ()
      \<and> availability_slots (snd (deleteAvailabilitySlot caller1 slotId d)) =
          map (\<lambda>s. if s_id s = slotId then s\<lparr>s_is_active := False\<rparr> else s) (availability_slots d)
      \<and> (\<forall>s \<in> set (availability_slots (snd (deleteAvailabilitySlot caller1 slotId d))).
            s_id s = slotId \<longrightarrow> \<not> s_is_active s))"
proof -
  have 1: "deleteAvailabilitySlot caller1 slotId d = deleteAvailabilitySlot caller2 slotId d"
    unfolding deleteAvailabilitySlot_def by (rule refl)
  have 2: "list_ex (\<lambda>s. s_id s = slotId) (availability_slots d) \<longrightarrow>
        fst (deleteAvailabilitySlot caller1 slotId d) = Inr ()
      \<and> availability_slots (snd (deleteAvailabilitySlot caller1 slotId d)) =
          map (\<lambda>s. if s_id s = slotId then s\<lparr>s_is_active := False\<rparr> else s) (availability_slots d)
      \<and> (\<forall>s \<in> set (availability_slots (snd (deleteAvailabilitySlot caller1 slotId d))).
            s_id s = slotId \<longrightarrow> \<not> s_is_active s)"
  proof
    assume ex: "list_ex (\<lambda>s. s_id s = slotId) (availability_slots d)"
    have a: "fst (deleteAvailabilitySlot caller1 slotId d) = Inr ()"
      unfolding deleteAvailabilitySlot_found [OF ex] by (rule fst_conv)
    have b: "availability_slots (snd (deleteAvailabilitySlot caller1 slotId d)) =
          map (\<lambda>s. if s_id s = slotId then s\<lparr>s_is_active := False\<rparr> else s) (availability_slots d)"
      unfolding deleteAvailabilitySlot_found [OF ex] snd_conv by simp
    have c: "\<forall>s \<in> set (availability_slots (snd (deleteAvailabilitySlot caller1 slotId d))).
            s_id s = slotId \<longrightarrow> \<not> s_is_active s"
      unfolding b using deactivated_rows by blast
    from a b c show "fst (deleteAvailabilitySlot caller1 slotId d) = Inr ()
      \<and> availability_slots (snd (deleteAvailabilitySlot caller1 slotId d)) =
          map (\<lambda>s. if s_id s = slotId then s\<lparr>s_is_active := False\<rparr> else s) (availability_slots d)
      \<and> (\<forall>s \<in> set (availability_slots (snd (deleteAvailabilitySlot caller1 slotId d))).
            s_id s = slotId \<longrightarrow> \<not> s_is_active s)"
      by (intro conjI)
  qed
  from 1 2 show ?thesis by (rule conjI)
qed

theorem delete_slot_any_caller_witness:
  "\<not> list_ex (\<lambda>et. et_user_id et = ''intruder'') (event_types ex_db)
   \<and> fst (addAvailabilitySlot ''intruder'' ''e1''
        (Some \<lparr>sr_day_of_week = ''Monday'', sr_start_time = 0, sr_end_time = 60\<rparr>) ''s9'' 7 ex_db)
       = Inl NotFoundError
   \<and> deleteAvailabilitySlot ''intruder'' ''s1'' ex_db = deleteAvailabilitySlot ''u1'' ''s1'' ex_db
   \<and> fst (deleteAvailabilitySlot ''intruder'' ''s1'' ex_db) = Inr ()
   \<and> s_is_active (availability_slots ex_db ! 0)
   \<and> s_id (availability_slots (snd (deleteAvailabilitySlot ''intruder'' ''s1'' ex_db)) ! 0) = ''s1''
   \<and> \<not> s_is_active (availability_slots (snd (deleteAvailabilitySlot ''intruder'' ''s1'' ex_db)) ! 0)"
proof -
  have ex: "list_ex (\<lambda>s. s_id s = ''s1'') (availability_slots ex_db)"
    by (simp add: ex_defs)
  have others: "\<not> list_ex (\<lambda>et. et_user_id et = ''intruder'') (event_types ex_db)"
    "fst (addAvailabilitySlot ''intruder'' ''e1''
        (Some \<lparr>sr_day_of_week = ''Monday'', sr_start_time = 0, sr_end_time = 60\<rparr>) ''s9'' 7 ex_db)
       = Inl NotFoundError"
    "s_is_active (availability_slots ex_db ! 0)"
    by (simp_all add: addAvailabilitySlot_def ex_defs)
  from delete_slot_any_caller [of "''intruder''" "''s1''" ex_db "''u1''"] ex
  have a: "deleteAvailabilitySlot ''intruder'' ''s1'' ex_db = deleteAvailabilitySlot ''u1'' ''s1'' ex_db"
    and b: "fst (deleteAvailabilitySlot ''intruder'' ''s1'' ex_db) = Inr ()"
    and c: "availability_slots (snd (deleteAvailabilitySlot ''intruder'' ''s1'' ex_db)) =
          map (\<lambda>s. if s_id s = ''s1'' then s\<lparr>s_is_active := False\<rparr> else s) (availability_slots ex_db)"
    by blast+
  have "s_id (availability_slots (snd (deleteAvailabilitySlot ''intruder'' ''s1'' ex_db)) ! 0) = ''s1''
   \<and> \<not> s_is_active (availability_slots (snd (deleteAvailabilitySlot ''intruder'' ''s1'' ex_db)) ! 0)"
    unfolding c by (simp add: ex_defs)
  with a b others show ?thesis by blast
qed

section \<open>Cancelling twice\<close>

text \<open>
  Claim C4 asks that cancelling an already cancelled booking fails and changes nothing. On
  the example store the owner cancels booking b1 twice. The lookup of the cancel route has
  no status filter (the reschedule route's lookup has one), so the second call succeeds too
  and overwrites the cancellation timestamp and the reason of the cancelled booking.
\<close>

theorem cancel_cancelled_booking_succeeds:
  "bookings (snd (cancelBooking ''b1'' ''u1'' (Some ''first'') 2000 ex_db1))
       = [(ex_booking ''b1'' monday_10_00)\<lparr>b_status := ''cancelled'', b_cancelled_at := Some 2000,
            b_cancellation_reason := Some ''first''\<rparr>]
   \<and> fst (cancelBooking ''b1'' ''u1'' (Some ''again'') 3000
            (snd (cancelBooking ''b1'' ''u1'' (Some ''first'') 2000 ex_db1)))
       = Inr ((ex_booking ''b1'' monday_10_00)\<lparr>b_status := ''cancelled'', b_cancelled_at := Some 3000,
            b_cancellation_reason := Some ''again''\<rparr>)
   \<and> bookings (snd (cancelBooking ''b1'' ''u1'' (Some ''again'') 3000
            (snd (cancelBooking ''b1'' ''u1'' (Some ''first'') 2000 ex_db1))))
       = [(ex_booking ''b1'' monday_10_00)\<lparr>b_status := ''cancelled'', b_cancelled_at := Some 3000,
            b_cancellation_reason := Some ''again''\<rparr>]"
  by (simp add: cancelBooking_def cancel_row_def or_null_def truthy_def Let_def releaseSlot_def
      analytics_defs time_defs ex_defs)

section \<open>Rescheduling a booking\<close>

lemma conflictCheck_reschedule_nonempty:
  "length (conflictCheck_reschedule bs e bookingId newEndTime st) > 0 \<longleftrightarrow>
     (\<exists>b\<in>set bs. b_id b \<noteq> bookingId \<and> b_event_type_id b = e \<and> b_status b = ''confirmed''
        \<and> b_scheduled_at b < newEndTime \<and> st < b_end_time b)"
  by (auto simp: conflictCheck_reschedule_def filter_empty_conv)

lemma rescheduleBooking_found:
  assumes "List.find (\<lambda>b. b_id b = bookingId \<and> b_user_id b = userId \<and> b_status b = ''confirmed'')
             (bookings d) = Some oldBooking"
    and "rb_date body = Some newStart"
    and "newEndTime = newStart + b_duration_minutes oldBooking * 60000"
    and "valid_date newEndTime"
    and "rb_timestamp body = Some start"
  shows "rescheduleBooking bookingId userId (Some body) now d =
     (if \<exists>b\<in>set (bookings d). b_id b \<noteq> bookingId \<and> b_event_type_id b = b_event_type_id oldBooking
            \<and> b_status b = ''confirmed'' \<and> b_scheduled_at b < newEndTime \<and> start < b_end_time b
      then (Inl ConflictError, d)
      else (Inr (move_row start newEndTime now oldBooking),
            d\<lparr>availability_slots :=
                 consumeSlot (b_event_type_id oldBooking) (dayOfWeek newStart)
                   (toTimeString_HHMM newStart) (toTimeString_HHMM newEndTime) now
                   (releaseSlot (b_event_type_id oldBooking) (dayOfWeek (b_scheduled_at oldBooking))
                      (toTimeString_HHMM (b_scheduled_at oldBooking)) now (availability_slots d)),
               bookings :=
                 map (\<lambda>b. if b_id b = bookingId then move_row start newEndTime now b else b)
                   (bookings d)\<rparr>))"
  using assms
  by (simp add: rescheduleBooking_def Let_def conflictCheck_reschedule_nonempty addMinutes_def
      minutes_ms_def del: length_greater_0_conv) blast

text \<open>For a request text whose two readings agree (a UTC text such as
  \<^verbatim>\<open>1970-01-05T10:15:00Z\<close>) and whose new end lies in the range of Date, the route does what
  the specification says of rescheduleBooking.\<close>

lemma rescheduleBooking_agreeing_readings:
  assumes "List.find (\<lambda>b. b_id b = bookingId \<and> b_user_id b = userId \<and> b_status b = ''confirmed'')
             (bookings d) = Some oldBooking"
    and "rb_date body = Some newStart" and "rb_timestamp body = Some newStart"
    and "newEnd = newStart + b_duration_minutes oldBooking * 60000"
    and "valid_date newEnd"
    and "conflict \<longleftrightarrow>
          (\<exists>b\<in>set (bookings d). b_id b \<noteq> bookingId \<and> b_event_type_id b = b_event_type_id oldBooking
             \<and> b_status b = ''confirmed'' \<and> b_scheduled_at b < newEnd \<and> newStart < b_end_time b)"
    and "r = rescheduleBooking bookingId userId (Some body) now d"
    and "moved = (\<lambda>b. b\<lparr>b_scheduled_at := newStart, b_end_time := newEnd, b_updated_at := now\<rparr>)"
  shows "(fst r = Inl ConflictError \<longleftrightarrow> conflict)
       \<and> (conflict \<longrightarrow> snd r = d)
       \<and> (\<not> conflict \<longrightarrow>
            fst r = Inr (moved oldBooking)
          \<and> bookings (snd r) = map (\<lambda>b. if b_id b = bookingId then moved b else b) (bookings d))"
proof -
  have mv: "move_row newStart newEnd now = moved"
    unfolding assms(8) by (simp add: move_row_def fun_eq_iff)
  note found = rescheduleBooking_found [OF assms(1) assms(2) assms(4) assms(5) assms(3)]
  show ?thesis
  proof (cases conflict)
    case True
    then have "r = (Inl ConflictError, d)"
      unfolding assms(7) assms(6) by (simp add: found)
    with True show ?thesis by simp
  next
    case False
    then have "r = (Inr (moved oldBooking),
            d\<lparr>availability_slots :=
                 consumeSlot (b_event_type_id oldBooking) (dayOfWeek newStart)
                   (toTimeString_HHMM newStart) (toTimeString_HHMM newEnd) now
                   (releaseSlot (b_event_type_id oldBooking) (dayOfWeek (b_scheduled_at oldBooking))
                      (toTimeString_HHMM (b_scheduled_at oldBooking)) now (availability_slots d)),
               bookings := map (\<lambda>b. if b_id b = bookingId then moved b else b) (bookings d)\<rparr>)"
      unfolding assms(7) assms(6) by (simp add: found mv)
    then have "fst r = Inr (moved oldBooking)"
      and "bookings (snd r) = map (\<lambda>b. if b_id b = bookingId then moved b else b) (bookings d)"
      by simp_all
    with False show ?thesis by simp
  qed
qed

text \<open>
  Claim C6 asks that a reschedule is refused exactly when the new half-open interval
  overlaps a different confirmed booking of the event type, and that on success the booking
  gets the new start and the end newStart + duration. The route takes the end from
  \<^verbatim>\<open>new Date(scheduled_at)\<close> and the start from the text itself, read without its offset. On
  the example store, with b1 at 10:00-10:30 and b2 at 11:00-11:30, the owner moves b2 to
  \<^verbatim>\<open>1970-01-05T15:30:00+05:30\<close>, the instant 10:00 UTC: the half-hour from that instant
  overlaps b1, yet the call succeeds and stores the start 15:30 with the end 10:30, an end
  that is not start + 30 minutes. Moving b2 to \<^verbatim>\<open>1970-01-05T10:00:00-05:00\<close>, the instant
  15:00 UTC, whose half-hour overlaps no booking, is refused with Conflict.
\<close>

theorem reschedule_offset_text_diverges:
  "b_scheduled_at (ex_booking ''b1'' monday_10_00) < monday_10_00 + 1800000
   \<and> monday_10_00 < b_end_time (ex_booking ''b1'' monday_10_00)
   \<and> fst (rescheduleBooking ''b2'' ''u1''
        (Some \<lparr>rb_date = Some monday_10_00, rb_timestamp = Some (monday_10_00 + 19800000)\<rparr>) 5000 ex_db2)
       = Inr ((ex_booking ''b2'' (monday_10_00 + 3600000))\<lparr>b_scheduled_at := monday_10_00 + 19800000,
                b_end_time := monday_10_00 + 1800000, b_updated_at := 5000\<rparr>)
   \<and> bookings (snd (rescheduleBooking ''b2'' ''u1''
        (Some \<lparr>rb_date = Some monday_10_00, rb_timestamp = Some (monday_10_00 + 19800000)\<rparr>) 5000 ex_db2))
       = [ex_booking ''b1'' monday_10_00,
          (ex_booking ''b2'' (monday_10_00 + 3600000))\<lparr>b_scheduled_at := monday_10_00 + 19800000,
                b_end_time := monday_10_00 + 1800000, b_updated_at := 5000\<rparr>]
   \<and> monday_10_00 + 1800000 \<noteq> (monday_10_00 + 19800000) + 30 * 60000
   \<and> \<not> (b_scheduled_at (ex_booking ''b1'' monday_10_00) < (monday_10_00 + 18000000) + 1800000
          \<and> monday_10_00 + 18000000 < b_end_time (ex_booking ''b1'' monday_10_00))
   \<and> rescheduleBooking ''b2'' ''u1''
        (Some \<lparr>rb_date = Some (monday_10_00 + 18000000), rb_timestamp = Some monday_10_00\<rparr>) 5000 ex_db2
       = (Inl ConflictError, ex_db2)"
proof -
  have f: "List.find (\<lambda>b. b_id b = ''b2'' \<and> b_user_id b = ''u1'' \<and> b_status b = ''confirmed'')
             (bookings ex_db2) = Some (ex_booking ''b2'' (monday_10_00 + 3600000))"
    by (simp add: ex_defs)
  have dur: "b_duration_minutes (ex_booking ''b2'' (monday_10_00 + 3600000)) = 30"
    by (simp add: ex_booking_def)
  have r1: "rescheduleBooking ''b2'' ''u1''
        (Some \<lparr>rb_date = Some monday_10_00, rb_timestamp = Some (monday_10_00 + 19800000)\<rparr>) 5000 ex_db2
      = (Inr ((ex_booking ''b2'' (monday_10_00 + 3600000))\<lparr>b_scheduled_at := monday_10_00 + 19800000,
                b_end_time := monday_10_00 + 1800000, b_updated_at := 5000\<rparr>),
         ex_db2\<lparr>availability_slots :=
                 consumeSlot ''e1'' (dayOfWeek monday_10_00)
                   (toTimeString_HHMM monday_10_00) (toTimeString_HHMM (monday_10_00 + 30 * 60000)) 5000
                   (releaseSlot ''e1'' (dayOfWeek (monday_10_00 + 3600000))
                      (toTimeString_HHMM (monday_10_00 + 3600000)) 5000 (availability_slots ex_db2)),
               bookings :=
                 [ex_booking ''b1'' monday_10_00,
                  (ex_booking ''b2'' (monday_10_00 + 3600000))\<lparr>b_scheduled_at := monday_10_00 + 19800000,
                     b_end_time := monday_10_00 + 1800000, b_updated_at := 5000\<rparr>]\<rparr>)"
    by (subst rescheduleBooking_found [OF f _ _ _ _, where newStart = monday_10_00
          and newEndTime = "monday_10_00 + 30 * 60000" and start = "monday_10_00 + 19800000"])
       (simp_all add: dur valid_date_def move_row_def ex_defs monday_10_00_def)
  have r2: "rescheduleBooking ''b2'' ''u1''
        (Some \<lparr>rb_date = Some (monday_10_00 + 18000000), rb_timestamp = Some monday_10_00\<rparr>) 5000 ex_db2
       = (Inl ConflictError, ex_db2)"
    by (subst rescheduleBooking_found [OF f _ _ _ _, where newStart = "monday_10_00 + 18000000"
          and newEndTime = "monday_10_00 + 18000000 + 30 * 60000" and start = monday_10_00])
       (simp_all add: dur valid_date_def ex_defs monday_10_00_def)
  have rest: "b_scheduled_at (ex_booking ''b1'' monday_10_00) < monday_10_00 + 1800000
   \<and> monday_10_00 < b_end_time (ex_booking ''b1'' monday_10_00)
   \<and> monday_10_00 + 1800000 \<noteq> (monday_10_00 + 19800000) + 30 * 60000
   \<and> \<not> (b_scheduled_at (ex_booking ''b1'' monday_10_00) < (monday_10_00 + 18000000) + 1800000
          \<and> monday_10_00 + 18000000 < b_end_time (ex_booking ''b1'' monday_10_00))"
    by (simp add: ex_booking_def monday_10_00_def)
  from r1 r2 rest show ?thesis by simp
qed

section \<open>Two createBooking calls for one interval\<close>

lemma find_event_type_frame:
  "users d' = users d \<Longrightarrow> event_types d' = event_types d \<Longrightarrow> find_event_type d' e = find_event_type d e"
  unfolding find_event_type_def by (erule ssubst, erule ssubst) (rule refl)

lemma createBooking_success:
  assumes "find_event_type d (r_event_type_id req) = Some (et, email)"
    and "createBooking (Some req) env d = (Inr b, d')"
    and "endTime = r_scheduled_at req + et_duration_minutes et * 60000"
  shows "b = insert_row req (ce_uuid env) et endTime (provision (ce_calendar env) (ce_random env)) (ce_now env)"
    and "bookings d' = bookings d @ [b]"
    and "users d' = users d"
    and "event_types d' = event_types d"
proof -
  have chk: "createBooking_check req d = Inr ((et, email), endTime)"
    using assms(2) unfolding assms(3)
    by (auto simp: createBooking_def createBooking_check_cases [OF assms(1)] split: if_splits)
  then have c: "createBooking_commit req env (et, email) endTime d = (Inr b, d')"
    using assms(2) by (simp add: createBooking_def)
  have fresh: "\<not> list_ex (\<lambda>b. b_id b = ce_uuid env) (bookings d)"
    using c by (auto simp: createBooking_commit_def Let_def split: if_splits)
  from c show "b = insert_row req (ce_uuid env) et endTime (provision (ce_calendar env) (ce_random env)) (ce_now env)"
    by (simp add: createBooking_commit_fresh [OF fresh])
  from c show "bookings d' = bookings d @ [b]"
    by (auto simp: createBooking_commit_fresh [OF fresh])
  from c show "users d' = users d"
    by (auto simp: createBooking_commit_fresh [OF fresh])
  from c show "event_types d' = event_types d"
    by (auto simp: createBooking_commit_fresh [OF fresh])
qed

lemma interleaved_run:
  "run2 [True, False, True, False]
        (Start (ex_req monday_10_00) (ex_env ''b1'' (ApiFailure ''down'')))
        (Start (ex_req monday_10_00) (ex_env ''b2'' (ApiFailure ''down''))) ex_db
     = (Answered (Inr (ex_booking ''b1'' monday_10_00)),
        Answered (Inr (ex_booking ''b2'' monday_10_00)),
        ex_db1\<lparr>bookings := [ex_booking ''b1'' monday_10_00, ex_booking ''b2'' monday_10_00]\<rparr>)"
proof -
  have chk: "createBooking_check (ex_req monday_10_00) ex_db
      = Inr ((ex_event, ''o@x''), monday_10_00 + 1800000)"
    by (simp add: createBooking_check_def find_event_type_def conflictCheck_def addMinutes_def
        minutes_ms_def ex_defs)
  have c1: "createBooking_commit (ex_req monday_10_00) (ex_env ''b1'' (ApiFailure ''down''))
      (ex_event, ''o@x'') (monday_10_00 + 1800000) ex_db = (Inr (ex_booking ''b1'' monday_10_00), ex_db1)"
    by (simp add: create_defs time_defs ex_defs)
  have c2: "createBooking_commit (ex_req monday_10_00) (ex_env ''b2'' (ApiFailure ''down''))
      (ex_event, ''o@x'') (monday_10_00 + 1800000) ex_db1
      = (Inr (ex_booking ''b2'' monday_10_00),
         ex_db1\<lparr>bookings := [ex_booking ''b1'' monday_10_00, ex_booking ''b2'' monday_10_00]\<rparr>)"
    by (simp add: create_defs time_defs ex_defs)
  show ?thesis
    by (simp add: chk c1 c2)
qed

lemma run2_sequential:
  "run2 [True, True, False, False] (Start req1 env1) (Start req2 env2) d =
     (case createBooking (Some req1) env1 d of
        (r1, d1) \<Rightarrow> (case createBooking (Some req2) env2 d1 of (r2, d2) \<Rightarrow> (Answered r1, Answered r2, d2)))"
  by (simp add: createBooking_def split: sum.splits prod.splits)

text \<open>
  Claim C3, as the code has it. Take two createBooking calls for the identical interval on
  the same event type (found, with a positive duration) that run one after the other, the
  second call's conflict check coming after the first call's INSERT. When the first call
  commits its booking, that booking is confirmed and stored, and the second call answers
  Conflict and writes nothing: exactly one commits. \<open>run2\<close> with the schedule first, first,
  second, second is this execution.
\<close>

theorem sequential_calls_one_winner:
  assumes "find_event_type d (r_event_type_id req1) = Some (et, email)"
    and "0 < et_duration_minutes et"
    and "createBooking (Some req1) env1 d = (Inr b1, d1)"
    and "r_event_type_id req2 = r_event_type_id req1"
    and "r_scheduled_at req2 = r_scheduled_at req1"
  shows "b_status b1 = ''confirmed''
       \<and> b1 \<in> set (bookings d1)
       \<and> createBooking (Some req2) env2 d1 = (Inl ConflictError, d1)
       \<and> run2 [True, True, False, False] (Start req1 env1) (Start req2 env2) d
           = (Answered (Inr b1), Answered (Inl ConflictError), d1)"
proof -
  let ?endTime = "r_scheduled_at req1 + et_duration_minutes et * 60000"
  note s = createBooking_success [OF assms(1) assms(3) refl]
  have st: "b_status b1 = ''confirmed''" "b_event_type_id b1 = r_event_type_id req1"
    "b_scheduled_at b1 = r_scheduled_at req1" "b_end_time b1 = ?endTime"
    unfolding s(1) by (simp_all add: insert_row_def)
  have mem: "b1 \<in> set (bookings d1)"
    unfolding s(2) by simp
  have ev: "find_event_type d1 (r_event_type_id req2) = Some (et, email)"
    unfolding assms(4) using assms(1) find_event_type_frame [OF s(3) s(4)] by simp
  have "b_scheduled_at b1 < r_scheduled_at req2 + et_duration_minutes et * 60000
      \<and> r_scheduled_at req2 < b_end_time b1"
    unfolding st assms(5) using assms(2) by simp
  with st mem assms(4) have "\<exists>b\<in>set (bookings d1). b_event_type_id b = r_event_type_id req2
       \<and> b_status b = ''confirmed''
       \<and> b_scheduled_at b < r_scheduled_at req2 + et_duration_minutes et * 60000
       \<and> r_scheduled_at req2 < b_end_time b"
    by auto
  then have "createBooking_check req2 d1 = Inl ConflictError"
    by (simp add: createBooking_check_cases [OF ev])
  then have second: "createBooking (Some req2) env2 d1 = (Inl ConflictError, d1)"
    by (simp add: createBooking_def)
  have "run2 [True, True, False, False] (Start req1 env1) (Start req2 env2) d
           = (Answered (Inr b1), Answered (Inl ConflictError), d1)"
    unfolding run2_sequential by (simp add: assms(3) second)
  with st(1) mem second show ?thesis by blast
qed

theorem sequential_calls_one_winner_witness:
  "fst (createBooking (Some (ex_req monday_10_00)) (ex_env ''b1'' (ApiFailure ''down'')) ex_db)
     = Inr (ex_booking ''b1'' monday_10_00)
   \<and> bookings (snd (createBooking (Some (ex_req monday_10_00)) (ex_env ''b1'' (ApiFailure ''down'')) ex_db))
     = [ex_booking ''b1'' monday_10_00]
   \<and> createBooking (Some (ex_req monday_10_00)) (ex_env ''b2'' (ApiFailure ''down''))
        (snd (createBooking (Some (ex_req monday_10_00)) (ex_env ''b1'' (ApiFailure ''down'')) ex_db))
     = (Inl ConflictError,
        snd (createBooking (Some (ex_req monday_10_00)) (ex_env ''b1'' (ApiFailure ''down'')) ex_db))
   \<and> run2 [True, True, False, False]
        (Start (ex_req monday_10_00) (ex_env ''b1'' (ApiFailure ''down'')))
        (Start (ex_req monday_10_00) (ex_env ''b2'' (ApiFailure ''down''))) ex_db
     = (Answered (Inr (ex_booking ''b1'' monday_10_00)), Answered (Inl ConflictError),
        snd (createBooking (Some (ex_req monday_10_00)) (ex_env ''b1'' (ApiFailure ''down'')) ex_db))"
proof -
  have ev: "find_event_type ex_db (r_event_type_id (ex_req monday_10_00)) = Some (ex_event, ''o@x'')"
    by (simp add: find_event_type_def ex_defs)
  have pos: "0 < et_duration_minutes ex_event"
    by (simp add: ex_event_def)
  have first: "createBooking (Some (ex_req monday_10_00)) (ex_env ''b1'' (ApiFailure ''down'')) ex_db
     = (Inr (ex_booking ''b1'' monday_10_00), ex_db1)"
    by (simp add: create_defs time_defs ex_defs)
  have bs: "bookings ex_db1 = [ex_booking ''b1'' monday_10_00]"
    by (simp add: ex_db1_def)
  from sequential_calls_one_winner [OF ev pos first refl refl, of "ex_env ''b2'' (ApiFailure ''down'')"]
  show ?thesis by (simp add: first bs)
qed

text \<open>
  Claim C3 as stated covers every concurrent execution. The conflict check and the INSERT
  are two separate queries; in the schedule where both handlers pass the check before either
  inserts, both calls for Monday 10:00 answer with a confirmed booking, and the table holds
  both.
\<close>

theorem interleaved_calls_both_commit_counterexample:
  "fst (run2 [True, False, True, False]
        (Start (ex_req monday_10_00) (ex_env ''b1'' (ApiFailure ''down'')))
        (Start (ex_req monday_10_00) (ex_env ''b2'' (ApiFailure ''down''))) ex_db)
     = Answered (Inr (ex_booking ''b1'' monday_10_00))
   \<and> fst (snd (run2 [True, False, True, False]
        (Start (ex_req monday_10_00) (ex_env ''b1'' (ApiFailure ''down'')))
        (Start (ex_req monday_10_00) (ex_env ''b2'' (ApiFailure ''down''))) ex_db))
     = Answered (Inr (ex_booking ''b2'' monday_10_00))
   \<and> bookings (snd (snd (run2 [True, False, True, False]
        (Start (ex_req monday_10_00) (ex_env ''b1'' (ApiFailure ''down'')))
        (Start (ex_req monday_10_00) (ex_env ''b2'' (ApiFailure ''down''))) ex_db)))
     = [ex_booking ''b1'' monday_10_00, ex_booking ''b2'' monday_10_00]
   \<and> b_status (ex_booking ''b1'' monday_10_00) = ''confirmed''
   \<and> b_status (ex_booking ''b2'' monday_10_00) = ''confirmed''"
proof -
  have run: "run2 [True, False, True, False]
        (Start (ex_req monday_10_00) (ex_env ''b1'' (ApiFailure ''down'')))
        (Start (ex_req monday_10_00) (ex_env ''b2'' (ApiFailure ''down''))) ex_db
     = (Answered (Inr (ex_booking ''b1'' monday_10_00)),
        Answered (Inr (ex_booking ''b2'' monday_10_00)),
        ex_db1\<lparr>bookings := [ex_booking ''b1'' monday_10_00, ex_booking ''b2'' monday_10_00]\<rparr>)"
    by (rule interleaved_run)
  show ?thesis
    unfolding run by (simp add: ex_booking_def)
qed

section \<open>The non-overlap invariant\<close>

lemma overlaps_commute: "overlaps a b \<longleftrightarrow> overlaps b a"
  by (auto simp: overlaps_def)

lemma separateI:
  assumes "\<And>i j. i < length bs \<Longrightarrow> j < length bs \<Longrightarrow> i \<noteq> j \<Longrightarrow> b_id (bs ! i) \<noteq> b_id (bs ! j)"
    and "\<And>i j. i < length bs \<Longrightarrow> j < length bs \<Longrightarrow> i \<noteq> j \<Longrightarrow>
           b_status (bs ! i) = ''confirmed'' \<Longrightarrow> b_status (bs ! j) = ''confirmed'' \<Longrightarrow>
           b_event_type_id (bs ! i) = b_event_type_id (bs ! j) \<Longrightarrow> \<not> overlaps (bs ! i) (bs ! j)"
  shows "separate bs"
  unfolding separate_def using assms by blast

lemma separate_ids:
  "separate bs \<Longrightarrow> i < length bs \<Longrightarrow> j < length bs \<Longrightarrow> i \<noteq> j \<Longrightarrow> b_id (bs ! i) \<noteq> b_id (bs ! j)"
  unfolding separate_def by blast

lemma separate_apart:
  "separate bs \<Longrightarrow> i < length bs \<Longrightarrow> j < length bs \<Longrightarrow> i \<noteq> j \<Longrightarrow>
     b_status (bs ! i) = ''confirmed'' \<Longrightarrow> b_status (bs ! j) = ''confirmed'' \<Longrightarrow>
     b_event_type_id (bs ! i) = b_event_type_id (bs ! j) \<Longrightarrow> \<not> overlaps (bs ! i) (bs ! j)"
  unfolding separate_def by blast

lemma separate_Nil: "separate []"
  by (simp add: separate_def)

lemma separate_append:
  assumes sep: "separate bs"
    and fresh: "\<And>b. b \<in> set bs \<Longrightarrow> b_id b \<noteq> b_id n"
    and free: "\<And>b. b \<in> set bs \<Longrightarrow> b_status b = ''confirmed'' \<Longrightarrow>
                 b_event_type_id b = b_event_type_id n \<Longrightarrow> \<not> overlaps b n"
  shows "separate (bs @ [n])"
proof (rule separateI)
  fix i j
  assume i: "i < length (bs @ [n])" and j: "j < length (bs @ [n])" and ne: "i \<noteq> j"
  show "b_id ((bs @ [n]) ! i) \<noteq> b_id ((bs @ [n]) ! j)"
  proof (cases "i < length bs")
    case True
    note ti = this
    show ?thesis
    proof (cases "j < length bs")
      case True
      with ti ne sep show ?thesis by (simp add: nth_append separate_ids)
    next
      case False
      with j have "j = length bs" by simp
      with ti fresh [of "bs ! i"] show ?thesis by (simp add: nth_append)
    qed
  next
    case False
    with i have il: "i = length bs" by simp
    with ne j have "j < length bs" by simp
    with il fresh [of "bs ! j"] show ?thesis by (auto simp: nth_append)
  qed
next
  fix i j
  assume i: "i < length (bs @ [n])" and j: "j < length (bs @ [n])" and ne: "i \<noteq> j"
    and ci: "b_status ((bs @ [n]) ! i) = ''confirmed''"
    and cj: "b_status ((bs @ [n]) ! j) = ''confirmed''"
    and et: "b_event_type_id ((bs @ [n]) ! i) = b_event_type_id ((bs @ [n]) ! j)"
  show "\<not> overlaps ((bs @ [n]) ! i) ((bs @ [n]) ! j)"
  proof (cases "i < length bs")
    case True
    note ti = this
    show ?thesis
    proof (cases "j < length bs")
      case True
      with ti ne ci cj et separate_apart [OF sep ti True ne] show ?thesis
        by (simp add: nth_append)
    next
      case False
      with j have jl: "j = length bs" by simp
      from ti ci et jl free [of "bs ! i"] show ?thesis by (simp add: nth_append)
    qed
  next
    case False
    with i have il: "i = length bs" by simp
    with ne j have tj: "j < length bs" by simp
    from tj cj et il free [of "bs ! j"] have "\<not> overlaps (bs ! j) n" by (simp add: nth_append)
    then have "\<not> overlaps n (bs ! j)" by (simp add: overlaps_commute)
    with il tj show ?thesis by (simp add: nth_append)
  qed
qed

lemma separate_map:
  assumes sep: "separate bs"
    and ids: "\<And>b. b_id (g b) = b_id b"
    and keep: "\<And>i j. i < length bs \<Longrightarrow> j < length bs \<Longrightarrow> i \<noteq> j \<Longrightarrow>
        b_status (g (bs ! i)) = ''confirmed'' \<Longrightarrow> b_status (g (bs ! j)) = ''confirmed'' \<Longrightarrow>
        b_event_type_id (g (bs ! i)) = b_event_type_id (g (bs ! j)) \<Longrightarrow>
        \<not> overlaps (g (bs ! i)) (g (bs ! j))"
  shows "separate (map g bs)"
proof (rule separateI)
  fix i j
  assume "i < length (map g bs)" "j < length (map g bs)" "i \<noteq> j"
  then show "b_id (map g bs ! i) \<noteq> b_id (map g bs ! j)"
    using separate_ids [OF sep, of i j] by (simp add: ids)
next
  fix i j
  assume "i < length (map g bs)" "j < length (map g bs)" "i \<noteq> j"
    "b_status (map g bs ! i) = ''confirmed''" "b_status (map g bs ! j) = ''confirmed''"
    "b_event_type_id (map g bs ! i) = b_event_type_id (map g bs ! j)"
  then show "\<not> overlaps (map g bs ! i) (map g bs ! j)"
    using keep [of i j] by simp
qed

lemma find_Some_nth:
  "List.find P xs = Some x \<Longrightarrow> \<exists>k<length xs. xs ! k = x \<and> P x"
  by (auto simp: find_Some_iff)

lemma createBooking_bookings:
  "bookings (snd (createBooking validation env d)) = bookings d
   \<or> (\<exists>req et endTime meet.
        conflictCheck (bookings d) (r_event_type_id req) endTime (r_scheduled_at req) = []
        \<and> \<not> list_ex (\<lambda>b. b_id b = ce_uuid env) (bookings d)
        \<and> bookings (snd (createBooking validation env d)) =
            bookings d @ [insert_row req (ce_uuid env) et endTime meet (ce_now env)])"
proof (cases validation)
  case None
  then show ?thesis by (simp add: createBooking_def)
next
  case (Some req)
  show ?thesis
  proof (cases "createBooking_check req d")
    case (Inl e)
    with Some show ?thesis by (simp add: createBooking_def)
  next
    case (Inr p)
    obtain et email endTime where p: "p = ((et, email), endTime)"
      by (cases p) auto
    have nc: "conflictCheck (bookings d) (r_event_type_id req) endTime (r_scheduled_at req) = []"
      using Inr unfolding p
      by (auto simp: createBooking_check_def Let_def split: option.splits if_splits)
    show ?thesis
    proof (cases "list_ex (\<lambda>b. b_id b = ce_uuid env) (bookings d)")
      case True
      with Some Inr p show ?thesis
        by (simp add: createBooking_def createBooking_commit_def Let_def)
    next
      case False
      have "bookings (snd (createBooking validation env d)) =
            bookings d @ [insert_row req (ce_uuid env) et endTime
              (provision (ce_calendar env) (ce_random env)) (ce_now env)]"
        using Some Inr p by (simp add: createBooking_def createBooking_commit_fresh [OF False])
      with nc False show ?thesis by blast
    qed
  qed
qed

lemma createBooking_separate:
  assumes "separate (bookings d)"
  shows "separate (bookings (snd (createBooking validation env d)))"
proof -
  from createBooking_bookings [of validation env d]
  consider (same) "bookings (snd (createBooking validation env d)) = bookings d"
    | (added) req et endTime meet where
        "conflictCheck (bookings d) (r_event_type_id req) endTime (r_scheduled_at req) = []"
        "\<not> list_ex (\<lambda>b. b_id b = ce_uuid env) (bookings d)"
        "bookings (snd (createBooking validation env d)) =
            bookings d @ [insert_row req (ce_uuid env) et endTime meet (ce_now env)]"
    by blast
  then show ?thesis
  proof cases
    case same
    with assms show ?thesis by simp
  next
    case added
    let ?n = "insert_row req (ce_uuid env) et endTime meet (ce_now env)"
    have n: "b_id ?n = ce_uuid env" "b_event_type_id ?n = r_event_type_id req"
      "b_scheduled_at ?n = r_scheduled_at req" "b_end_time ?n = endTime"
      by (simp_all add: insert_row_def)
    have "separate (bookings d @ [?n])"
    proof (rule separate_append [OF assms])
      fix b assume "b \<in> set (bookings d)"
      with added(2) show "b_id b \<noteq> b_id ?n"
        unfolding n by (auto simp: list_ex_iff)
    next
      fix b assume b: "b \<in> set (bookings d)" "b_status b = ''confirmed''"
        "b_event_type_id b = b_event_type_id ?n"
      from added(1) b have "\<not> (b_scheduled_at b < endTime \<and> b_end_time b > r_scheduled_at req)"
        unfolding n by (auto simp: conflictCheck_def filter_empty_conv)
      then show "\<not> overlaps b ?n"
        unfolding overlaps_def n by auto
    qed
    with added(3) show ?thesis by simp
  qed
qed

lemma cancel_row_frame:
  "b_id (cancel_row reason now b) = b_id b" "b_status (cancel_row reason now b) \<noteq> ''confirmed''"
  by (simp_all add: cancel_row_def)

lemma cancelBooking_bookings:
  "bookings (snd (cancelBooking bookingId userId reason now d)) = bookings d
   \<or> bookings (snd (cancelBooking bookingId userId reason now d)) =
       map (\<lambda>b. if b_id b = bookingId \<and> b_user_id b = userId then cancel_row reason now b else b)
         (bookings d)"
proof (cases "List.find (\<lambda>b. b_id b = bookingId \<and> b_user_id b = userId \<and> b_deleted_at b = None) (bookings d)")
  case None
  then show ?thesis by (simp add: cancelBooking_def)
next
  case (Some booking)
  then show ?thesis by (simp add: cancelBooking_found(2))
qed

lemma cancelBooking_separate:
  assumes "separate (bookings d)"
  shows "separate (bookings (snd (cancelBooking bookingId userId reason now d)))"
proof -
  let ?g = "\<lambda>b. if b_id b = bookingId \<and> b_user_id b = userId then cancel_row reason now b else b"
  have ids: "\<And>b. b_id (?g b) = b_id b"
    by (simp add: cancel_row_frame)
  have conf: "\<And>b. b_status (?g b) = ''confirmed'' \<Longrightarrow> ?g b = b"
  proof -
    fix b assume c: "b_status (?g b) = ''confirmed''"
    show "?g b = b"
    proof (cases "b_id b = bookingId \<and> b_user_id b = userId")
      case True
      with c cancel_row_frame(2) [of reason now b] show ?thesis by simp
    next
      case False
      then show ?thesis by (rule if_not_P)
    qed
  qed
  have "separate (map ?g (bookings d))"
  proof (rule separate_map [OF assms])
    fix b show "b_id (?g b) = b_id b" by (rule ids)
  next
    fix i j
    assume h: "i < length (bookings d)" "j < length (bookings d)" "i \<noteq> j"
      and ci: "b_status (?g (bookings d ! i)) = ''confirmed''"
      and cj: "b_status (?g (bookings d ! j)) = ''confirmed''"
      and et: "b_event_type_id (?g (bookings d ! i)) = b_event_type_id (?g (bookings d ! j))"
    have gi: "?g (bookings d ! i) = bookings d ! i" using ci by (rule conf)
    have gj: "?g (bookings d ! j) = bookings d ! j" using cj by (rule conf)
    from ci cj et have "\<not> overlaps (bookings d ! i) (bookings d ! j)"
      unfolding gi gj by (rule separate_apart [OF assms h])
    then show "\<not> overlaps (?g (bookings d ! i)) (?g (bookings d ! j))"
      unfolding gi gj .
  qed
  with assms cancelBooking_bookings [of bookingId userId reason now d] show ?thesis
    by auto
qed

lemma move_row_frame:
  "b_id (move_row t e now b) = b_id b" "b_status (move_row t e now b) = b_status b"
  "b_event_type_id (move_row t e now b) = b_event_type_id b"
  "b_scheduled_at (move_row t e now b) = t" "b_end_time (move_row t e now b) = e"
  by (simp_all add: move_row_def)

lemma rescheduleBooking_bookings:
  "bookings (snd (rescheduleBooking bookingId userId body now d)) = bookings d
   \<or> (\<exists>oldBooking t e.
        List.find (\<lambda>b. b_id b = bookingId \<and> b_user_id b = userId \<and> b_status b = ''confirmed'')
          (bookings d) = Some oldBooking
        \<and> \<not> (\<exists>b\<in>set (bookings d). b_id b \<noteq> bookingId \<and> b_event_type_id b = b_event_type_id oldBooking
               \<and> b_status b = ''confirmed'' \<and> b_scheduled_at b < e \<and> t < b_end_time b)
        \<and> bookings (snd (rescheduleBooking bookingId userId body now d)) =
            map (\<lambda>b. if b_id b = bookingId then move_row t e now b else b) (bookings d))"
proof (cases body)
  case None
  then show ?thesis by (simp add: rescheduleBooking_def)
next
  case body: (Some scheduled_at)
  show ?thesis
  proof (cases "List.find (\<lambda>b. b_id b = bookingId \<and> b_user_id b = userId \<and> b_status b = ''confirmed'')
          (bookings d)")
    case None
    with body show ?thesis by (simp add: rescheduleBooking_def)
  next
    case found: (Some oldBooking)
    show ?thesis
    proof (cases "rb_date scheduled_at")
      case None
      with body found show ?thesis by (simp add: rescheduleBooking_def)
    next
      case date: (Some newStart)
      let ?e = "newStart + b_duration_minutes oldBooking * 60000"
      show ?thesis
      proof (cases "valid_date ?e")
        case False
        with body found date show ?thesis
          by (simp add: rescheduleBooking_def Let_def addMinutes_def minutes_ms_def)
      next
        case valid: True
        show ?thesis
        proof (cases "rb_timestamp scheduled_at")
          case None
          with body found date valid show ?thesis
            by (simp add: rescheduleBooking_def Let_def addMinutes_def minutes_ms_def)
        next
          case ts: (Some t)
          note r = rescheduleBooking_found [OF found date refl valid ts]
          show ?thesis
          proof (cases "\<exists>b\<in>set (bookings d). b_id b \<noteq> bookingId
                 \<and> b_event_type_id b = b_event_type_id oldBooking
                 \<and> b_status b = ''confirmed'' \<and> b_scheduled_at b < ?e \<and> t < b_end_time b")
            case True
            then have "rescheduleBooking bookingId userId (Some scheduled_at) now d = (Inl ConflictError, d)"
              by (simp add: r)
            with body show ?thesis by simp
          next
            case False
            then have "bookings (snd (rescheduleBooking bookingId userId (Some scheduled_at) now d)) =
                map (\<lambda>b. if b_id b = bookingId then move_row t ?e now b else b) (bookings d)"
              by (subst r, subst if_not_P, assumption) simp
            with body found False show ?thesis by blast
          qed
        qed
      qed
    qed
  qed
qed

lemma rescheduleBooking_separate:
  assumes sep: "separate (bookings d)"
  shows "separate (bookings (snd (rescheduleBooking bookingId userId body now d)))"
proof -
  from rescheduleBooking_bookings [of bookingId userId body now d]
  consider (same) "bookings (snd (rescheduleBooking bookingId userId body now d)) = bookings d"
    | (moved) oldBooking t e where
        "List.find (\<lambda>b. b_id b = bookingId \<and> b_user_id b = userId \<and> b_status b = ''confirmed'')
          (bookings d) = Some oldBooking"
        "\<not> (\<exists>b\<in>set (bookings d). b_id b \<noteq> bookingId \<and> b_event_type_id b = b_event_type_id oldBooking
               \<and> b_status b = ''confirmed'' \<and> b_scheduled_at b < e \<and> t < b_end_time b)"
        "bookings (snd (rescheduleBooking bookingId userId body now d)) =
            map (\<lambda>b. if b_id b = bookingId then move_row t e now b else b) (bookings d)"
    by blast
  then show ?thesis
  proof cases
    case same
    with sep show ?thesis by simp
  next
    case moved
    let ?bs = "bookings d"
    let ?g = "\<lambda>b. if b_id b = bookingId then move_row t e now b else b"
    from find_Some_nth [OF moved(1)] obtain k where
      k: "k < length ?bs" "?bs ! k = oldBooking" "b_id oldBooking = bookingId"
      by blast
    have the_row: "\<And>i. i < length ?bs \<Longrightarrow> b_id (?bs ! i) = bookingId \<Longrightarrow> ?bs ! i = oldBooking"
    proof -
      fix i assume i: "i < length ?bs" "b_id (?bs ! i) = bookingId"
      have "i = k"
      proof (rule ccontr)
        assume "i \<noteq> k"
        from separate_ids [OF sep i(1) k(1) this] i(2) k(2,3) show False by simp
      qed
      with k(2) show "?bs ! i = oldBooking" by simp
    qed
    have one_moved: "\<And>i j. i < length ?bs \<Longrightarrow> j < length ?bs \<Longrightarrow> i \<noteq> j \<Longrightarrow>
        b_id (?bs ! i) = bookingId \<Longrightarrow>
        b_status (?bs ! j) = ''confirmed'' \<Longrightarrow> b_event_type_id (?bs ! i) = b_event_type_id (?bs ! j) \<Longrightarrow>
        \<not> (b_scheduled_at (?bs ! j) < e \<and> t < b_end_time (?bs ! j))"
    proof -
      fix i j
      assume h: "i < length ?bs" "j < length ?bs" "i \<noteq> j" "b_id (?bs ! i) = bookingId"
        "b_status (?bs ! j) = ''confirmed''" "b_event_type_id (?bs ! i) = b_event_type_id (?bs ! j)"
      have old: "?bs ! i = oldBooking" using h(1,4) by (rule the_row)
      have nj: "b_id (?bs ! j) \<noteq> bookingId"
        using separate_ids [OF sep h(2) h(1)] h(3,4) by auto
      have mem: "?bs ! j \<in> set ?bs" using h(2) by simp
      from moved(2) mem nj h(5,6) old
      show "\<not> (b_scheduled_at (?bs ! j) < e \<and> t < b_end_time (?bs ! j))"
        by auto
    qed
    have "separate (map ?g ?bs)"
    proof (rule separate_map [OF sep])
      fix b show "b_id (?g b) = b_id b" by (simp add: move_row_frame)
    next
      fix i j
      assume h: "i < length ?bs" "j < length ?bs" "i \<noteq> j"
        and ci: "b_status (?g (?bs ! i)) = ''confirmed''"
        and cj: "b_status (?g (?bs ! j)) = ''confirmed''"
        and et: "b_event_type_id (?g (?bs ! i)) = b_event_type_id (?g (?bs ! j))"
      have ci': "b_status (?bs ! i) = ''confirmed''"
        using ci by (cases "b_id (?bs ! i) = bookingId") (simp_all add: move_row_frame)
      have cj': "b_status (?bs ! j) = ''confirmed''"
        using cj by (cases "b_id (?bs ! j) = bookingId") (simp_all add: move_row_frame)
      have eti: "b_event_type_id (?g (?bs ! i)) = b_event_type_id (?bs ! i)"
        by (cases "b_id (?bs ! i) = bookingId") (simp_all add: move_row_frame)
      have etj: "b_event_type_id (?g (?bs ! j)) = b_event_type_id (?bs ! j)"
        by (cases "b_id (?bs ! j) = bookingId") (simp_all add: move_row_frame)
      from et have et': "b_event_type_id (?bs ! i) = b_event_type_id (?bs ! j)"
        unfolding eti etj .
      show "\<not> overlaps (?g (?bs ! i)) (?g (?bs ! j))"
      proof (cases "b_id (?bs ! i) = bookingId")
        case True
        then have nj: "b_id (?bs ! j) \<noteq> bookingId"
          using separate_ids [OF sep h(1) h(2) h(3)] by simp
        have "overlaps (?g (?bs ! i)) (?g (?bs ! j))
            \<longleftrightarrow> t < b_end_time (?bs ! j) \<and> b_scheduled_at (?bs ! j) < e"
          using True nj by (simp add: overlaps_def move_row_frame)
        with one_moved [OF h(1) h(2) h(3) True cj' et']
        show ?thesis by blast
      next
        case False
        note ni = this
        show ?thesis
        proof (cases "b_id (?bs ! j) = bookingId")
          case True
          have "overlaps (?g (?bs ! i)) (?g (?bs ! j))
              \<longleftrightarrow> b_scheduled_at (?bs ! i) < e \<and> t < b_end_time (?bs ! i)"
            using True ni by (simp add: overlaps_def move_row_frame)
          with one_moved [OF h(2) h(1) h(3) [symmetric] True ci' et' [symmetric]]
          show ?thesis by blast
        next
          case False
          with ni separate_apart [OF sep h ci' cj' et'] show ?thesis by simp
        qed
      qed
    qed
    with moved(3) show ?thesis by simp
  qed
qed

lemma apply_op_separate:
  "separate (bookings d) \<Longrightarrow> separate (bookings (apply_op x d))"
  by (cases x) (simp_all add: createBooking_separate cancelBooking_separate rescheduleBooking_separate)

lemma run_in_turn_separate:
  "separate (bookings d) \<Longrightarrow> separate (bookings (run_in_turn ops d))"
  by (induction ops arbitrary: d) (simp_all add: apply_op_separate)

text \<open>
  Claim C1, as the code has it. Start from a store whose bookings table is empty and run any
  sequence of createBooking, rescheduleBooking and cancelBooking calls one after the other,
  each handler running to its answer before the next one starts. In the bookings table \<open>bs\<close>
  reached, any two different rows that are both confirmed bookings of the same event type
  have half-open intervals that do not overlap: not (B1.start < B2.end and B2.start <
  B1.end).
\<close>

theorem confirmed_bookings_never_overlap:
  assumes "bookings d0 = []"
    and "bs = bookings (run_in_turn ops d0)"
  shows "\<forall>i<length bs. \<forall>j<length bs.
           i \<noteq> j \<and> b_status (bs ! i) = ''confirmed'' \<and> b_status (bs ! j) = ''confirmed''
             \<and> b_event_type_id (bs ! i) = b_event_type_id (bs ! j)
           \<longrightarrow> \<not> (b_scheduled_at (bs ! i) < b_end_time (bs ! j)
                  \<and> b_scheduled_at (bs ! j) < b_end_time (bs ! i))"
proof -
  have "separate (bookings d0)"
    unfolding assms(1) by (rule separate_Nil)
  then have "separate bs"
    unfolding assms(2) by (rule run_in_turn_separate)
  then show ?thesis
    unfolding separate_def overlaps_def by blast
qed

theorem confirmed_bookings_never_overlap_witness:
  "bookings ex_db = []
   \<and> bookings (run_in_turn ex_ops ex_db)
       = [ex_booking ''b1'' monday_10_00,
          (ex_booking ''b3'' (monday_10_00 + 1800000))\<lparr>b_scheduled_at := monday_10_00 + 3600000,
             b_end_time := monday_10_00 + 3600000 + 1800000, b_updated_at := 4000\<rparr>]
   \<and> \<not> (b_scheduled_at (bookings (run_in_turn ex_ops ex_db) ! 0) < b_end_time (bookings (run_in_turn ex_ops ex_db) ! 1)
         \<and> b_scheduled_at (bookings (run_in_turn ex_ops ex_db) ! 1) < b_end_time (bookings (run_in_turn ex_ops ex_db) ! 0))"
proof -
  have e: "bookings ex_db = []"
    by (simp add: ex_db_def)
  have s1: "apply_op (ex_ops ! 0) ex_db = ex_db1"
    by (simp add: ex_ops_def create_defs time_defs ex_defs)
  have s2: "apply_op (ex_ops ! 1) ex_db1 = ex_db1"
    by (simp add: ex_ops_def create_defs time_defs ex_defs)
  have s3: "bookings (apply_op (ex_ops ! 2) ex_db1)
      = [ex_booking ''b1'' monday_10_00, ex_booking ''b3'' (monday_10_00 + 1800000)]"
    by (simp add: ex_ops_def create_defs time_defs ex_defs)
  have op3: "ex_ops ! 3 = RescheduleBooking ''b3'' ''u1''
      (Some \<lparr>rb_date = Some (monday_10_00 + 3600000), rb_timestamp = Some (monday_10_00 + 3600000)\<rparr>) 4000"
    by (simp add: ex_ops_def)
  have f: "List.find (\<lambda>b. b_id b = ''b3'' \<and> b_user_id b = ''u1'' \<and> b_status b = ''confirmed'')
             (bookings (apply_op (ex_ops ! 2) ex_db1)) = Some (ex_booking ''b3'' (monday_10_00 + 1800000))"
    unfolding s3 by (simp add: ex_booking_def)
  have s4: "bookings (apply_op (ex_ops ! 3) (apply_op (ex_ops ! 2) ex_db1))
       = [ex_booking ''b1'' monday_10_00,
          (ex_booking ''b3'' (monday_10_00 + 1800000))\<lparr>b_scheduled_at := monday_10_00 + 3600000,
             b_end_time := monday_10_00 + 3600000 + 1800000, b_updated_at := 4000\<rparr>]"
    unfolding op3 apply_op.simps
    by (subst rescheduleBooking_found [OF f _ refl, where newStart = "monday_10_00 + 3600000"
          and start = "monday_10_00 + 3600000"])
       (simp_all add: s3 valid_date_def move_row_def ex_booking_def monday_10_00_def)
  have run: "run_in_turn ex_ops ex_db = apply_op (ex_ops ! 3) (apply_op (ex_ops ! 2) ex_db1)"
    using s1 s2 by (simp add: ex_ops_def)
  have r: "bookings (run_in_turn ex_ops ex_db)
       = [ex_booking ''b1'' monday_10_00,
          (ex_booking ''b3'' (monday_10_00 + 1800000))\<lparr>b_scheduled_at := monday_10_00 + 3600000,
             b_end_time := monday_10_00 + 3600000 + 1800000, b_updated_at := 4000\<rparr>]"
    unfolding run by (rule s4)
  have h: "(0::nat) < length (bookings (run_in_turn ex_ops ex_db))" "(1::nat) < length (bookings (run_in_turn ex_ops ex_db))"
    "(0::nat) \<noteq> 1"
    "b_status (bookings (run_in_turn ex_ops ex_db) ! 0) = ''confirmed''"
    "b_status (bookings (run_in_turn ex_ops ex_db) ! 1) = ''confirmed''"
    "b_event_type_id (bookings (run_in_turn ex_ops ex_db) ! 0) = b_event_type_id (bookings (run_in_turn ex_ops ex_db) ! 1)"
    unfolding r by (simp_all add: ex_booking_def)
  from confirmed_bookings_never_overlap [OF e refl, of ex_ops] h
  have "\<not> (b_scheduled_at (bookings (run_in_turn ex_ops ex_db) ! 0) < b_end_time (bookings (run_in_turn ex_ops ex_db) ! 1)
         \<and> b_scheduled_at (bookings (run_in_turn ex_ops ex_db) ! 1) < b_end_time (bookings (run_in_turn ex_ops ex_db) ! 0))"
    by blast
  with e r show ?thesis by blast
qed

text \<open>
  Claim C1 as stated speaks of every table the operations can reach. Two createBooking
  handlers for Monday 10:00 whose queries alternate (both conflict checks, then both
  INSERTs) start from the empty table and leave two different rows that are confirmed
  bookings of one event type with overlapping intervals.
\<close>

theorem interleaved_calls_break_invariant_counterexample:
  "bookings ex_db = []
   \<and> length (bookings (snd (snd (run2 [True, False, True, False]
        (Start (ex_req monday_10_00) (ex_env ''b1'' (ApiFailure ''down'')))
        (Start (ex_req monday_10_00) (ex_env ''b2'' (ApiFailure ''down''))) ex_db)))) = 2
   \<and> b_id (bookings (snd (snd (run2 [True, False, True, False]
        (Start (ex_req monday_10_00) (ex_env ''b1'' (ApiFailure ''down'')))
        (Start (ex_req monday_10_00) (ex_env ''b2'' (ApiFailure ''down''))) ex_db))) ! 0) = ''b1''
   \<and> b_id (bookings (snd (snd (run2 [True, False, True, False]
        (Start (ex_req monday_10_00) (ex_env ''b1'' (ApiFailure ''down'')))
        (Start (ex_req monday_10_00) (ex_env ''b2'' (ApiFailure ''down''))) ex_db))) ! 1) = ''b2''
   \<and> overlaps
        (bookings (snd (snd (run2 [True, False, True, False]
          (Start (ex_req monday_10_00) (ex_env ''b1'' (ApiFailure ''down'')))
          (Start (ex_req monday_10_00) (ex_env ''b2'' (ApiFailure ''down''))) ex_db))) ! 0)
        (bookings (snd (snd (run2 [True, False, True, False]
          (Start (ex_req monday_10_00) (ex_env ''b1'' (ApiFailure ''down'')))
          (Start (ex_req monday_10_00) (ex_env ''b2'' (ApiFailure ''down''))) ex_db))) ! 1)
   \<and> \<not> separate (bookings (snd (snd (run2 [True, False, True, False]
        (Start (ex_req monday_10_00) (ex_env ''b1'' (ApiFailure ''down'')))
        (Start (ex_req monday_10_00) (ex_env ''b2'' (ApiFailure ''down''))) ex_db))))"
proof -
  let ?bs = "[ex_booking ''b1'' monday_10_00, ex_booking ''b2'' monday_10_00]"
  have bs: "bookings (snd (snd (run2 [True, False, True, False]
        (Start (ex_req monday_10_00) (ex_env ''b1'' (ApiFailure ''down'')))
        (Start (ex_req monday_10_00) (ex_env ''b2'' (ApiFailure ''down''))) ex_db))) = ?bs"
    unfolding interleaved_run by simp
  have o: "overlaps (?bs ! 0) (?bs ! 1)"
    by (simp add: overlaps_def ex_booking_def)
  have c: "b_status (?bs ! 0) = ''confirmed''" "b_status (?bs ! 1) = ''confirmed''"
    "b_event_type_id (?bs ! 0) = b_event_type_id (?bs ! 1)"
    by (simp_all add: ex_booking_def)
  have "\<not> separate ?bs"
  proof
    assume "separate ?bs"
    from separate_apart [OF this, of 0 1] c have "\<not> overlaps (?bs ! 0) (?bs ! 1)"
      by simp
    with o show False by contradiction
  qed
  with o show ?thesis
    unfolding bs by (simp add: ex_db_def ex_booking_def)
qed

end
